theory Spec2Isabelle
  imports Main
begin

section \<open>Text and character classes\<close>

text \<open>
  The program is \<^verbatim>\<open>1_response_to_json.py\<close>, class \<^verbatim>\<open>EnhancedJSONParser\<close>.  A Python
  \<^verbatim>\<open>str\<close> is modelled by \<^typ>\<open>string\<close>: a list of characters with code points
  0 to 255.  The classes below are the ones Python's \<^verbatim>\<open>re\<close> module and
  \<^verbatim>\<open>str.strip\<close>, \<^verbatim>\<open>str.lower\<close> use on these code points.
\<close>

definition code :: "char \<Rightarrow> nat" where
  "code c = of_char c"

text \<open>\<^verbatim>\<open>\d\<close>: the decimal digits.\<close>

definition is_digit :: "char \<Rightarrow> bool" where
  "is_digit c = (48 \<le> code c \<and> code c \<le> 57)"

text \<open>\<^verbatim>\<open>\s\<close>, and the characters \<^verbatim>\<open>str.strip()\<close> removes.\<close>

definition is_space :: "char \<Rightarrow> bool" where
  "is_space c = (let n = code c in
     (9 \<le> n \<and> n \<le> 13) \<or> (28 \<le> n \<and> n \<le> 32) \<or> n = 133 \<or> n = 160)"

text \<open>\<^verbatim>\<open>\w\<close>: alphanumeric characters and the underscore.\<close>

definition is_word :: "char \<Rightarrow> bool" where
  "is_word c = (let n = code c in
     (48 \<le> n \<and> n \<le> 57) \<or> (65 \<le> n \<and> n \<le> 90) \<or> n = 95 \<or> (97 \<le> n \<and> n \<le> 122)
     \<or> n = 170 \<or> n = 178 \<or> n = 179 \<or> n = 181 \<or> n = 185 \<or> n = 186
     \<or> (188 \<le> n \<and> n \<le> 190) \<or> (192 \<le> n \<and> n \<le> 214) \<or> (216 \<le> n \<and> n \<le> 246)
     \<or> 248 \<le> n)"

definition newline :: char where
  "newline = CHR 0x0A"

text \<open>\<^verbatim>\<open>str.strip()\<close>\<close>

definition lstrip :: "string \<Rightarrow> string" where
  "lstrip s = dropWhile is_space s"

definition strip :: "string \<Rightarrow> string" where
  "strip s = rev (dropWhile is_space (rev (dropWhile is_space s)))"

text \<open>\<^verbatim>\<open>str.lower()\<close>\<close>

definition lower_char :: "char \<Rightarrow> char" where
  "lower_char c = (let n = code c in
     if (65 \<le> n \<and> n \<le> 90) \<or> (192 \<le> n \<and> n \<le> 214) \<or> (216 \<le> n \<and> n \<le> 222)
     then char_of (n + 32) else c)"

definition lower :: "string \<Rightarrow> string" where
  "lower s = map lower_char s"

text \<open>\<^verbatim>\<open>sub in s\<close> on strings: \<open>sub\<close> occurs in \<open>s\<close> as a contiguous piece.\<close>

fun starts_with :: "string \<Rightarrow> string \<Rightarrow> bool" where
  "starts_with [] s = True"
| "starts_with (p # ps) [] = False"
| "starts_with (p # ps) (c # cs) = (p = c \<and> starts_with ps cs)"

fun str_in :: "string \<Rightarrow> string \<Rightarrow> bool" where
  "str_in sub [] = (sub = [])"
| "str_in sub (c # cs) = (starts_with sub (c # cs) \<or> str_in sub cs)"

text \<open>\<^verbatim>\<open>s.replace(old, new)\<close> for one-character \<open>old\<close> and \<open>new\<close>.\<close>

definition replace_char :: "char \<Rightarrow> char \<Rightarrow> string \<Rightarrow> string" where
  "replace_char old new s = map (\<lambda>c. if c = old then new else c) s"

text \<open>\<^verbatim>\<open>int(n)\<close> on a string of decimal digits.\<close>

definition digit_val :: "char \<Rightarrow> int" where
  "digit_val c = int (code c) - 48"

definition int_of_digits :: "string \<Rightarrow> int" where
  "int_of_digits s = foldl (\<lambda>a c. 10 * a + digit_val c) 0 s"

section \<open>Regular expressions as Python's \<^verbatim>\<open>re\<close> matches them\<close>

text \<open>
  The patterns of the program are written in this syntax.  \<open>Star\<close> is the greedy
  \<^verbatim>\<open>r*\<close>, \<open>Lazy\<close> the non-greedy \<^verbatim>\<open>r*?\<close>, \<open>Grp\<close> the capturing group number 1,
  \<open>Eos\<close> is \<^verbatim>\<open>$\<close> without \<^verbatim>\<open>re.MULTILINE\<close>, \<open>Eol\<close> is \<^verbatim>\<open>$\<close> with it, \<open>Wb\<close> is
  \<^verbatim>\<open>\b\<close>.
\<close>

datatype re =
    Lit char
  | Cls "char \<Rightarrow> bool"
  | Cat re re
  | Star re
  | Lazy re
  | Grp re
  | Eos
  | Eol
  | Wb

text \<open>\<^verbatim>\<open>r+\<close>\<close>

definition Plus :: "re \<Rightarrow> re" where
  "Plus r = Cat r (Star r)"

text \<open>A literal string.\<close>

fun Str :: "string \<Rightarrow> re \<Rightarrow> re" where
  "Str [] r = r"
| "Str (c # cs) r = Cat (Lit c) (Str cs r)"

text \<open>
  A cursor is a position in the subject string: the character before it (none at
  the start), the text from it on, and what group 1 has captured so far.
\<close>

record cursor =
  behind :: "char option"
  ahead :: string
  group1 :: string

definition advance :: "cursor \<Rightarrow> char \<Rightarrow> string \<Rightarrow> cursor" where
  "advance cu c cs = cu\<lparr>behind := Some c, ahead := cs\<rparr>"

text \<open>
  The backtracking matcher as a list of successes: \<open>ms r cu\<close> are the cursors where a
  match of \<open>r\<close> that starts at \<open>cu\<close> can end, in the order in which backtracking tries
  them.  The head of the list is the match Python reports.  An iteration of a star
  that consumes nothing is not repeated; the number of iterations is bounded by
  the length of the remaining text.
\<close>

fun star_greedy :: "(cursor \<Rightarrow> cursor list) \<Rightarrow> nat \<Rightarrow> cursor \<Rightarrow> cursor list" where
  "star_greedy f 0 cu = [cu]"
| "star_greedy f (Suc n) cu =
     concat (map (star_greedy f n) (filter (\<lambda>cu'. length (ahead cu') < length (ahead cu)) (f cu)))
     @ [cu]"

fun star_lazy :: "(cursor \<Rightarrow> cursor list) \<Rightarrow> nat \<Rightarrow> cursor \<Rightarrow> cursor list" where
  "star_lazy f 0 cu = [cu]"
| "star_lazy f (Suc n) cu =
     cu # concat (map (star_lazy f n) (filter (\<lambda>cu'. length (ahead cu') < length (ahead cu)) (f cu)))"

definition at_word_boundary :: "cursor \<Rightarrow> bool" where
  "at_word_boundary cu =
     ((case behind cu of None \<Rightarrow> False | Some c \<Rightarrow> is_word c)
      \<noteq> (case ahead cu of [] \<Rightarrow> False | c # _ \<Rightarrow> is_word c))"

primrec ms :: "re \<Rightarrow> cursor \<Rightarrow> cursor list" where
  "ms (Lit c) = (\<lambda>cu. case ahead cu of [] \<Rightarrow> []
                   | x # xs \<Rightarrow> if x = c then [advance cu x xs] else [])"
| "ms (Cls p) = (\<lambda>cu. case ahead cu of [] \<Rightarrow> []
                   | x # xs \<Rightarrow> if p x then [advance cu x xs] else [])"
| "ms (Cat r1 r2) = (\<lambda>cu. concat (map (ms r2) (ms r1 cu)))"
| "ms (Star r) = (\<lambda>cu. star_greedy (ms r) (length (ahead cu)) cu)"
| "ms (Lazy r) = (\<lambda>cu. star_lazy (ms r) (length (ahead cu)) cu)"
| "ms (Grp r) = (\<lambda>cu. map (\<lambda>cu'. cu'\<lparr>group1 := take (length (ahead cu) - length (ahead cu')) (ahead cu)\<rparr>)
                          (ms r cu))"
| "ms Eos = (\<lambda>cu. if ahead cu = [] \<or> ahead cu = [newline] then [cu] else [])"
| "ms Eol = (\<lambda>cu. case ahead cu of [] \<Rightarrow> [cu] | x # _ \<Rightarrow> if x = newline then [cu] else [])"
| "ms Wb = (\<lambda>cu. if at_word_boundary cu then [cu] else [])"

text \<open>
  The match at one position: the first success; with \<open>adv\<close> set (the position is
  the end of an empty match) the first success that consumes something.
\<close>

definition match_at :: "re \<Rightarrow> bool \<Rightarrow> char option \<Rightarrow> string \<Rightarrow> cursor option" where
  "match_at r adv p s =
     (case filter (\<lambda>cu. adv \<longrightarrow> length (ahead cu) < length s)
             (ms r \<lparr>behind = p, ahead = s, group1 = []\<rparr>)
      of [] \<Rightarrow> None | cu # _ \<Rightarrow> Some cu)"

text \<open>The text a match has consumed.\<close>

definition matched :: "string \<Rightarrow> cursor \<Rightarrow> string" where
  "matched s cu = take (length s - length (ahead cu)) s"

text \<open>
  \<^verbatim>\<open>re.sub(pattern, repl, text)\<close>: the matches are found from left to right, not
  overlapping; \<open>repl\<close> is given group 1.  \<open>scan r adv p s\<close> is the list of the pieces
  of \<open>s\<close>: \<open>Inl c\<close> a character outside every match, \<open>Inr cu\<close> a match.
\<close>

function scan :: "re \<Rightarrow> bool \<Rightarrow> char option \<Rightarrow> string \<Rightarrow> (char + string \<times> cursor) list" where
  "scan r adv p s =
     (case match_at r adv p s of
        Some cu \<Rightarrow>
          if length (ahead cu) < length s
          then Inr (matched s cu, cu) # scan r False (behind cu) (ahead cu)
          else Inr ([], cu) # (if adv then [] else scan r True p s)
      | None \<Rightarrow> (case s of [] \<Rightarrow> [] | c # cs \<Rightarrow> Inl c # scan r False (Some c) cs))"
  by pat_completeness auto
termination
  by (relation "measure (\<lambda>(r, adv, p, s). 2 * length s + (if adv then 0 else 1))") auto

declare scan.simps [simp del]

lemma scan_no_match:
  "match_at r adv p s = None \<Longrightarrow>
     scan r adv p s = (case s of [] \<Rightarrow> [] | c # cs \<Rightarrow> Inl c # scan r False (Some c) cs)"
  by (subst scan.simps) simp

lemma scan_match:
  "match_at r adv p s = Some cu \<Longrightarrow> length (ahead cu) < length s \<Longrightarrow>
     scan r adv p s = Inr (matched s cu, cu) # scan r False (behind cu) (ahead cu)"
  by (subst scan.simps) simp

lemma scan_empty_match:
  "match_at r adv p s = Some cu \<Longrightarrow> \<not> length (ahead cu) < length s \<Longrightarrow>
     scan r adv p s = Inr ([], cu) # (if adv then [] else scan r True p s)"
  by (subst scan.simps) simp

definition re_sub :: "re \<Rightarrow> (string \<Rightarrow> string) \<Rightarrow> string \<Rightarrow> string" where
  "re_sub r repl s =
     concat (map (\<lambda>x. case x of Inl c \<Rightarrow> [c] | Inr (m, cu) \<Rightarrow> repl (group1 cu)) (scan r False None s))"

text \<open>
  \<^verbatim>\<open>re.findall(pattern, text)\<close>: the matched texts, for a pattern with no group; the
  texts of group 1, for a pattern with one group.
\<close>

primrec has_group :: "re \<Rightarrow> bool" where
  "has_group (Lit c) = False"
| "has_group (Cls p) = False"
| "has_group (Cat r1 r2) = (has_group r1 \<or> has_group r2)"
| "has_group (Star r) = has_group r"
| "has_group (Lazy r) = has_group r"
| "has_group (Grp r) = True"
| "has_group Eos = False"
| "has_group Eol = False"
| "has_group Wb = False"

definition re_findall :: "re \<Rightarrow> string \<Rightarrow> string list" where
  "re_findall r s =
     concat (map (\<lambda>x. case x of Inl c \<Rightarrow> []
                       | Inr (m, cu) \<Rightarrow> [if has_group r then group1 cu else m])
                 (scan r False None s))"

section \<open>The sanitizer: \<^verbatim>\<open>clean_json_string\<close>\<close>

text \<open>The seven patterns of \<^verbatim>\<open>clean_json_string\<close>, in the order of the source.\<close>

text \<open>\<^verbatim>\<open>```json\s*\<close>\<close>

definition fence_open_re :: re where
  "fence_open_re = Str ''```json'' (Star (Cls is_space))"

text \<open>\<^verbatim>\<open>```\s*$\<close>\<close>

definition fence_close_re :: re where
  "fence_close_re = Str ''```'' (Cat (Star (Cls is_space)) Eos)"

text \<open>\<^verbatim>\<open>//.*$\<close> with \<^verbatim>\<open>re.MULTILINE\<close>\<close>

definition comment_re :: re where
  "comment_re = Str ''//'' (Cat (Star (Cls (\<lambda>c. c \<noteq> newline))) Eol)"

text \<open>\<^verbatim>\<open>(\d+)\s*\([^)]*\)\<close>\<close>

definition paren_note_re :: re where
  "paren_note_re =
     Cat (Grp (Plus (Cls is_digit)))
      (Cat (Star (Cls is_space))
        (Cat (Lit CHR ''('') (Cat (Star (Cls (\<lambda>c. c \<noteq> CHR '')''))) (Lit CHR '')''))))"

text \<open>\<^verbatim>\<open>(\w+):\<close>\<close>

definition bare_key_re :: re where
  "bare_key_re = Cat (Grp (Plus (Cls is_word))) (Lit CHR '':'')"

text \<open>\<^verbatim>\<open>,\s*}\<close> and \<^verbatim>\<open>,\s*]\<close>\<close>

definition comma_brace_re :: re where
  "comma_brace_re = Cat (Lit CHR '','') (Cat (Star (Cls is_space)) (Lit CHR ''}''))"

definition comma_bracket_re :: re where
  "comma_bracket_re = Cat (Lit CHR '','') (Cat (Star (Cls is_space)) (Lit CHR '']''))"

text \<open>The single steps, named after the comments of the source.\<close>

definition remove_fence_open :: "string \<Rightarrow> string" where
  "remove_fence_open text = re_sub fence_open_re (\<lambda>g. []) text"

definition remove_fence_close :: "string \<Rightarrow> string" where
  "remove_fence_close text = re_sub fence_close_re (\<lambda>g. []) text"

definition remove_comments :: "string \<Rightarrow> string" where
  "remove_comments text = re_sub comment_re (\<lambda>g. []) text"

definition remove_paren_notes :: "string \<Rightarrow> string" where
  "remove_paren_notes text = re_sub paren_note_re (\<lambda>g. g) text"

definition quote_bare_keys :: "string \<Rightarrow> string" where
  "quote_bare_keys text = re_sub bare_key_re (\<lambda>g. [CHR 0x22] @ g @ [CHR 0x22, CHR '':'']) text"

definition remove_comma_brace :: "string \<Rightarrow> string" where
  "remove_comma_brace text = re_sub comma_brace_re (\<lambda>g. ''}'') text"

definition remove_comma_bracket :: "string \<Rightarrow> string" where
  "remove_comma_bracket text = re_sub comma_bracket_re (\<lambda>g. '']'') text"

definition clean_json_string :: "string \<Rightarrow> string" where
  "clean_json_string text =
     strip (remove_comma_bracket (remove_comma_brace (quote_bare_keys
       (remove_paren_notes (remove_comments (remove_fence_close (remove_fence_open text)))))))"

section \<open>The block locator: \<^verbatim>\<open>extract_json_blocks\<close>\<close>

definition not_brace :: "char \<Rightarrow> bool" where
  "not_brace c = (c \<noteq> CHR ''{'' \<and> c \<noteq> CHR ''}'')"

definition not_bracket :: "char \<Rightarrow> bool" where
  "not_bracket c = (c \<noteq> CHR ''['' \<and> c \<noteq> CHR '']'')"

text \<open>\<^verbatim>\<open>\{[^{}]*(?:\{[^{}]*\}[^{}]*)*\}\<close>\<close>

definition json_pattern :: re where
  "json_pattern =
     Cat (Lit CHR ''{'') (Cat (Star (Cls not_brace))
       (Cat (Star (Cat (Lit CHR ''{'') (Cat (Star (Cls not_brace))
                    (Cat (Lit CHR ''}'') (Star (Cls not_brace))))))
            (Lit CHR ''}'')))"

text \<open>\<^verbatim>\<open>\[[^\[\]]*(?:\[[^\[\]]*\][^\[\]]*)*\]\<close>\<close>

definition array_pattern :: re where
  "array_pattern =
     Cat (Lit CHR ''['') (Cat (Star (Cls not_bracket))
       (Cat (Star (Cat (Lit CHR ''['') (Cat (Star (Cls not_bracket))
                    (Cat (Lit CHR '']'') (Star (Cls not_bracket))))))
            (Lit CHR '']'')))"

text \<open>\<^verbatim>\<open>\{.*?\}\<close> with \<^verbatim>\<open>re.DOTALL\<close>\<close>

definition nested_pattern :: re where
  "nested_pattern = Cat (Lit CHR ''{'') (Cat (Lazy (Cls (\<lambda>c. True))) (Lit CHR ''}''))"

definition extract_json_blocks :: "string \<Rightarrow> string list" where
  "extract_json_blocks text =
     re_findall json_pattern text @ re_findall array_pattern text @ re_findall nested_pattern text"

section \<open>Python values\<close>

text \<open>
  The values the decoders return.  Python's \<^verbatim>\<open>None\<close> is the value \<open>PNone\<close>: a
  function of type \<^verbatim>\<open>Optional[Dict]\<close> that returns \<^verbatim>\<open>None\<close> returns \<open>PNone\<close>.  A
  decoded string is the list of its code points (an escape can name a code point
  above 255).  A float is kept as the decimal number written, \<open>Dec m e\<close> for
  \<open>m * 10 ^ e\<close> with \<open>m\<close> not divisible by 10; the rounding of doubles is not part of
  the model.  A dictionary is the list of its items in insertion order, a set the
  list of its members in insertion order.
\<close>

datatype pyfloat = Dec int int | NaN | PosInf | NegInf

datatype pyval =
    PNone
  | PBool bool
  | PInt int
  | PFloat pyfloat
  | PStr "nat list"
  | PList "pyval list"
  | PTuple "pyval list"
  | PSet "pyval list"
  | PDict "(pyval \<times> pyval) list"

definition pstr :: "string \<Rightarrow> pyval" where
  "pstr s = PStr (map code s)"

text \<open>Truth value testing, as in \<^verbatim>\<open>if parsed:\<close>.\<close>

fun truthy :: "pyval \<Rightarrow> bool" where
  "truthy PNone = False"
| "truthy (PBool b) = b"
| "truthy (PInt i) = (i \<noteq> 0)"
| "truthy (PFloat f) = (case f of Dec m e \<Rightarrow> m \<noteq> 0 | _ \<Rightarrow> True)"
| "truthy (PStr s) = (s \<noteq> [])"
| "truthy (PList xs) = (xs \<noteq> [])"
| "truthy (PTuple xs) = (xs \<noteq> [])"
| "truthy (PSet xs) = (xs \<noteq> [])"
| "truthy (PDict kvs) = (kvs \<noteq> [])"

text \<open>\<^verbatim>\<open>d[k] = v\<close>: a key already present keeps its place.\<close>

fun dict_set :: "(pyval \<times> pyval) list \<Rightarrow> pyval \<Rightarrow> pyval \<Rightarrow> (pyval \<times> pyval) list" where
  "dict_set [] k v = [(k, v)]"
| "dict_set ((k', v') # kvs) k v = (if k' = k then (k, v) # kvs else (k', v') # dict_set kvs k v)"

text \<open>\<^verbatim>\<open>d.update(other)\<close>\<close>

definition dict_update :: "(pyval \<times> pyval) list \<Rightarrow> (pyval \<times> pyval) list \<Rightarrow> (pyval \<times> pyval) list" where
  "dict_update d other = foldl (\<lambda>acc (k, v). dict_set acc k v) d other"

text \<open>Normal form of a decimal float: trailing zeros of the mantissa go to the exponent.\<close>

function norm_dec :: "int \<Rightarrow> int \<Rightarrow> pyfloat" where
  "norm_dec m e = (if m = 0 then Dec 0 0 else if m mod 10 = 0 then norm_dec (m div 10) (e + 1) else Dec m e)"
  by pat_completeness auto
termination
  by (relation "measure (\<lambda>(m, e). nat \<bar>m\<bar>)") auto

section \<open>The strict decoder: \<^verbatim>\<open>json.loads\<close>\<close>

text \<open>
  \<^verbatim>\<open>json.loads\<close> is the standard library's decoder; the program calls it and
  catches \<^verbatim>\<open>json.JSONDecodeError\<close>.  The model is a scanner that cuts the text into
  tokens and a stack machine that reads them; \<open>None\<close> stands for the raised
  \<^verbatim>\<open>JSONDecodeError\<close>.
\<close>

datatype jtok = JLBrace | JRBrace | JLBrack | JRBrack | JComma | JColon | JVal pyval

definition is_json_ws :: "char \<Rightarrow> bool" where
  "is_json_ws c = (c = CHR '' '' \<or> c = CHR 0x09 \<or> c = CHR 0x0A \<or> c = CHR 0x0D)"

definition hex_val :: "char \<Rightarrow> nat option" where
  "hex_val c = (let n = code c in
     if 48 \<le> n \<and> n \<le> 57 then Some (n - 48)
     else if 65 \<le> n \<and> n \<le> 70 then Some (n - 55)
     else if 97 \<le> n \<and> n \<le> 102 then Some (n - 87)
     else None)"

fun hex4 :: "string \<Rightarrow> (nat \<times> string) option" where
  "hex4 (a # b # c # d # rest) =
     (case (hex_val a, hex_val b, hex_val c, hex_val d) of
        (Some x, Some y, Some z, Some w) \<Rightarrow> Some (((x * 16 + y) * 16 + z) * 16 + w, rest)
      | _ \<Rightarrow> None)"
| "hex4 _ = None"

text \<open>The one-character escapes of a JSON string.\<close>

definition json_escape :: "char \<Rightarrow> nat option" where
  "json_escape e =
     (if e = CHR 0x22 then Some 34 else if e = CHR 0x5C then Some 92
      else if e = CHR ''/'' then Some 47 else if e = CHR ''b'' then Some 8
      else if e = CHR ''f'' then Some 12 else if e = CHR ''n'' then Some 10
      else if e = CHR ''r'' then Some 13 else if e = CHR ''t'' then Some 9
      else None)"

text \<open>
  The text after \<^verbatim>\<open>\u\<close>: four hexadecimal digits; a high surrogate directly
  followed by an escaped low surrogate is one code point.
\<close>

definition low_surrogate :: "string \<Rightarrow> (nat \<times> string) option" where
  "low_surrogate s =
     (case s of
        b # v # rest \<Rightarrow>
          if b = CHR 0x5C \<and> v = CHR ''u'' then
            (case hex4 rest of
               Some (u2, rest2) \<Rightarrow> if 56320 \<le> u2 \<and> u2 \<le> 57343 then Some (u2, rest2) else None
             | None \<Rightarrow> None)
          else None
      | _ \<Rightarrow> None)"

definition json_unicode :: "string \<Rightarrow> (nat \<times> string) option" where
  "json_unicode s =
     (case hex4 s of
        None \<Rightarrow> None
      | Some (u, rest) \<Rightarrow>
          if 55296 \<le> u \<and> u \<le> 56319 then
            (case low_surrogate rest of
               Some (u2, rest2) \<Rightarrow> Some (65536 + (u - 55296) * 1024 + (u2 - 56320), rest2)
             | None \<Rightarrow> Some (u, rest))
          else Some (u, rest))"

lemma hex4_shorter: "hex4 s = Some (u, rest) \<Longrightarrow> length s = length rest + 4"
  by (induction s rule: hex4.induct) (auto split: option.splits)

lemma low_surrogate_shorter: "low_surrogate s = Some (u, rest) \<Longrightarrow> length rest < length s"
  by (auto simp: low_surrogate_def split: list.splits if_splits option.splits dest: hex4_shorter)

lemma json_unicode_shorter: "json_unicode s = Some (u, rest) \<Longrightarrow> length rest < length s"
  by (auto simp: json_unicode_def split: option.splits if_splits
           dest!: hex4_shorter low_surrogate_shorter)

text \<open>
  The body of a string after the opening quote: the code points up to the closing
  quote, and the text after it.  A control character, an unknown escape or a missing
  closing quote is an error.
\<close>

function json_string :: "string \<Rightarrow> (nat list \<times> string) option" where
  "json_string [] = None"
| "json_string (c # cs) =
     (if c = CHR 0x22 then Some ([], cs)
      else if c = CHR 0x5C then
        (case cs of
           [] \<Rightarrow> None
         | e # es \<Rightarrow>
             (case (if e = CHR ''u'' then json_unicode es
                    else map_option (\<lambda>k. (k, es)) (json_escape e)) of
                None \<Rightarrow> None
              | Some (k, rest) \<Rightarrow> map_option (\<lambda>(t, r). (k # t, r)) (json_string rest)))
      else if code c < 32 then None
      else map_option (\<lambda>(t, r). (code c # t, r)) (json_string cs))"
  by pat_completeness auto
termination
  by (relation "measure length")
     (auto split: if_splits dest!: json_unicode_shorter)

lemma json_string_shorter: "json_string s = Some (t, rest) \<Longrightarrow> length rest < length s"
proof (induction s arbitrary: t rest rule: json_string.induct)
  case 1
  then show ?case by simp
next
  case (2 c cs)
  show ?case
  proof (cases "c = CHR 0x22")
    case True
    with "2.prems" show ?thesis by simp
  next
    case nq: False
    show ?thesis
    proof (cases "c = CHR 0x5C")
      case True
      with nq "2.prems" obtain e es k r1 t1 where
        cs: "cs = e # es"
        and esc: "(if e = CHR ''u'' then json_unicode es
                   else map_option (\<lambda>k. (k, es)) (json_escape e)) = Some (k, r1)"
        and rec: "json_string r1 = Some (t1, rest)"
        by (auto split: list.splits option.splits)
      have "length r1 \<le> length es"
        using esc by (auto split: if_splits dest: json_unicode_shorter)
      moreover have "length rest < length r1"
        by (rule "2.IH"(1) [OF nq True cs esc refl rec])
      ultimately show ?thesis using cs by simp
    next
      case False
      with nq "2.prems" obtain t1 where rec: "json_string cs = Some (t1, rest)" and "\<not> code c < 32"
        by (auto split: if_splits)
      with "2.IH"(2) [OF nq False] have "length rest < length cs" by auto
      then show ?thesis by simp
    qed
  qed
qed

text \<open>
  A number: \<^verbatim>\<open>-?(0|[1-9]\d*)(\.\d+)?([eE][-+]?\d+)?\<close>.  Without fraction and
  exponent it is an \<^verbatim>\<open>int\<close>, otherwise a \<^verbatim>\<open>float\<close>.
\<close>

definition json_int_part :: "string \<Rightarrow> (string \<times> string) option" where
  "json_int_part s =
     (case s of
        [] \<Rightarrow> None
      | c # cs \<Rightarrow>
          if c = CHR ''0'' then Some ([c], cs)
          else if is_digit c then Some (c # takeWhile is_digit cs, dropWhile is_digit cs)
          else None)"

definition json_frac_part :: "string \<Rightarrow> (string \<times> string) option" where
  "json_frac_part s =
     (case s of
        c # d # cs \<Rightarrow>
          if c = CHR ''.'' \<and> is_digit d then Some (d # takeWhile is_digit cs, dropWhile is_digit cs)
          else None
      | _ \<Rightarrow> None)"

definition json_exp_digits :: "bool \<Rightarrow> string \<Rightarrow> (int \<times> string) option" where
  "json_exp_digits neg s =
     (case s of
        [] \<Rightarrow> None
      | d # cs \<Rightarrow>
          if is_digit d
          then Some ((if neg then - 1 else 1) * int_of_digits (d # takeWhile is_digit cs),
                     dropWhile is_digit cs)
          else None)"

definition json_exp_part :: "string \<Rightarrow> (int \<times> string) option" where
  "json_exp_part s =
     (case s of
        [] \<Rightarrow> None
      | c # cs \<Rightarrow>
          if c = CHR ''e'' \<or> c = CHR ''E'' then
            (case cs of
               [] \<Rightarrow> None
             | g # ds \<Rightarrow>
                 if g = CHR ''-'' then json_exp_digits True ds
                 else if g = CHR ''+'' then json_exp_digits False ds
                 else json_exp_digits False cs)
          else None)"

definition json_number :: "string \<Rightarrow> (pyval \<times> string) option" where
  "json_number s =
     (let neg = (case s of [] \<Rightarrow> False | c # _ \<Rightarrow> c = CHR ''-'');
          s1 = (if neg then tl s else s);
          sgn = (if neg then - 1 else 1)
      in case json_int_part s1 of
           None \<Rightarrow> None
         | Some (ip, s2) \<Rightarrow>
             (case (json_frac_part s2, json_exp_part (case json_frac_part s2 of None \<Rightarrow> s2 | Some (fp, s3) \<Rightarrow> s3)) of
                (None, None) \<Rightarrow> Some (PInt (sgn * int_of_digits ip), s2)
              | (Some (fp, s3), None) \<Rightarrow>
                  Some (PFloat (norm_dec (sgn * int_of_digits (ip @ fp)) (- int (length fp))), s3)
              | (None, Some (ex, s4)) \<Rightarrow>
                  Some (PFloat (norm_dec (sgn * int_of_digits ip) ex), s4)
              | (Some (fp, s3), Some (ex, s4)) \<Rightarrow>
                  Some (PFloat (norm_dec (sgn * int_of_digits (ip @ fp)) (ex - int (length fp))), s4)))"

text \<open>The constants \<^verbatim>\<open>null\<close>, \<^verbatim>\<open>true\<close>, \<^verbatim>\<open>false\<close>, \<^verbatim>\<open>NaN\<close>, \<^verbatim>\<open>Infinity\<close>, \<^verbatim>\<open>-Infinity\<close>.\<close>

definition json_constant :: "string \<Rightarrow> (pyval \<times> string) option" where
  "json_constant s =
     (if starts_with ''null'' s then Some (PNone, drop 4 s)
      else if starts_with ''true'' s then Some (PBool True, drop 4 s)
      else if starts_with ''false'' s then Some (PBool False, drop 5 s)
      else if starts_with ''NaN'' s then Some (PFloat NaN, drop 3 s)
      else if starts_with ''Infinity'' s then Some (PFloat PosInf, drop 8 s)
      else if starts_with ''-Infinity'' s then Some (PFloat NegInf, drop 9 s)
      else None)"

definition json_atom :: "string \<Rightarrow> (pyval \<times> string) option" where
  "json_atom s =
     (case s of
        [] \<Rightarrow> None
      | c # cs \<Rightarrow>
          if c = CHR 0x22 then map_option (\<lambda>(t, r). (PStr t, r)) (json_string cs)
          else (case json_constant s of
                  Some x \<Rightarrow> Some x
                | None \<Rightarrow> json_number s))"

lemma json_number_shorter: "json_number s = Some (v, rest) \<Longrightarrow> length rest < length s"
proof -
  have ip: "\<And>a x r. json_int_part a = Some (x, r) \<Longrightarrow> length r < length a"
    by (auto simp: json_int_part_def le_imp_less_Suc length_dropWhile_le split: list.splits if_splits)
  have fp: "\<And>a x r. json_frac_part a = Some (x, r) \<Longrightarrow> length r < length a"
    by (auto simp: json_frac_part_def le_imp_less_Suc length_dropWhile_le less_SucI
             split: list.splits if_splits)
  have ed: "\<And>b a x r. json_exp_digits b a = Some (x, r) \<Longrightarrow> length r < length a"
    by (auto simp: json_exp_digits_def le_imp_less_Suc length_dropWhile_le split: list.splits if_splits)
  have ep: "\<And>a x r. json_exp_part a = Some (x, r) \<Longrightarrow> length r < length a"
    by (auto simp: json_exp_part_def less_SucI split: list.splits if_splits dest!: ed)
  assume a: "json_number s = Some (v, rest)"
  define s1 where "s1 = (if (case s of [] \<Rightarrow> False | c # _ \<Rightarrow> c = CHR ''-'') then tl s else s)"
  have s1: "length s1 \<le> length s" by (simp add: s1_def)
  from a obtain x s2 where i: "json_int_part s1 = Some (x, s2)"
    by (auto simp: json_number_def Let_def s1_def split: option.splits)
  have l2: "length s2 < length s" using ip [OF i] s1 by simp
  show ?thesis
  proof (cases "json_frac_part s2")
    case None
    then show ?thesis
      using a i l2 ep [of s2]
      by (auto simp: json_number_def Let_def s1_def split: option.splits)
  next
    case (Some q)
    obtain y s3 where q: "q = (y, s3)" by (cases q)
    have l3: "length s3 < length s" using fp [of s2 y s3] Some q l2 by simp
    show ?thesis
      using a i l3 Some q ep [of s3]
      by (auto simp: json_number_def Let_def s1_def split: option.splits)
  qed
qed

lemma json_constant_shorter: "json_constant s = Some (v, rest) \<Longrightarrow> length rest < length s"
proof -
  assume a: "json_constant s = Some (v, rest)"
  have ne: "s \<noteq> []" using a by (auto simp: json_constant_def)
  from a obtain k where "rest = drop (Suc k) s"
    unfolding json_constant_def by (auto split: if_splits simp: numeral_eq_Suc)
  then show ?thesis using ne by simp
qed

lemma json_atom_shorter: "json_atom s = Some (v, rest) \<Longrightarrow> length rest < length s"
proof -
  assume a: "json_atom s = Some (v, rest)"
  then obtain c cs where s: "s = c # cs" by (cases s) (auto simp: json_atom_def)
  show ?thesis
  proof (cases "c = CHR 0x22")
    case True
    with a s obtain t where "json_string cs = Some (t, rest)"
      by (auto simp: json_atom_def)
    from json_string_shorter [OF this] show ?thesis using s by simp
  next
    case False
    with a s have "json_constant s = Some (v, rest) \<or> json_number s = Some (v, rest)"
      by (simp add: json_atom_def split: option.splits)
    then show ?thesis
      using json_constant_shorter json_number_shorter by blast
  qed
qed

text \<open>The scanner: whitespace between tokens is skipped.\<close>

definition json_punct :: "char \<Rightarrow> jtok option" where
  "json_punct c =
     (if c = CHR ''{'' then Some JLBrace else if c = CHR ''}'' then Some JRBrace
      else if c = CHR ''['' then Some JLBrack else if c = CHR '']'' then Some JRBrack
      else if c = CHR '','' then Some JComma else if c = CHR '':'' then Some JColon
      else None)"

function jlex :: "string \<Rightarrow> jtok list option" where
  "jlex [] = Some []"
| "jlex (c # cs) =
     (if is_json_ws c then jlex cs
      else case json_punct c of
             Some t \<Rightarrow> map_option ((#) t) (jlex cs)
           | None \<Rightarrow>
               (case json_atom (c # cs) of
                  None \<Rightarrow> None
                | Some (v, rest) \<Rightarrow> map_option ((#) (JVal v)) (jlex rest)))"
  by pat_completeness auto
termination
  by (relation "measure length") (auto dest!: json_atom_shorter)

text \<open>
  The reader: a stack of the arrays and objects that are open, and what may come
  next.  In an object a repeated key keeps its first place and takes the last value.
\<close>

datatype jframe =
    JArr "pyval list"
  | JObj "(pyval \<times> pyval) list"
  | JKey "(pyval \<times> pyval) list" pyval

datatype jmode = JValue | JFirst | JName | JColonNext | JAfter | JEnd pyval

fun jdeliver :: "pyval \<Rightarrow> jframe list \<Rightarrow> (jmode \<times> jframe list) option" where
  "jdeliver v [] = Some (JEnd v, [])"
| "jdeliver v (JArr xs # st) = Some (JAfter, JArr (xs @ [v]) # st)"
| "jdeliver v (JKey kvs k # st) = Some (JAfter, JObj (dict_set kvs k v) # st)"
| "jdeliver v (JObj kvs # st) = None"

fun jvalue :: "jtok \<Rightarrow> jframe list \<Rightarrow> (jmode \<times> jframe list) option" where
  "jvalue (JVal v) st = jdeliver v st"
| "jvalue JLBrace st = Some (JFirst, JObj [] # st)"
| "jvalue JLBrack st = Some (JFirst, JArr [] # st)"
| "jvalue _ st = None"

fun jname :: "jtok \<Rightarrow> jframe list \<Rightarrow> (jmode \<times> jframe list) option" where
  "jname (JVal (PStr k)) (JObj kvs # st) = Some (JColonNext, JKey kvs (PStr k) # st)"
| "jname _ _ = None"

fun jstep :: "jmode \<Rightarrow> jframe list \<Rightarrow> jtok \<Rightarrow> (jmode \<times> jframe list) option" where
  "jstep JValue st t = jvalue t st"
| "jstep JFirst (JArr xs # st) t = (if t = JRBrack then jdeliver (PList xs) st else jvalue t (JArr xs # st))"
| "jstep JFirst (JObj kvs # st) t = (if t = JRBrace then jdeliver (PDict kvs) st else jname t (JObj kvs # st))"
| "jstep JFirst _ t = None"
| "jstep JName st t = jname t st"
| "jstep JColonNext st t = (if t = JColon then Some (JValue, st) else None)"
| "jstep JAfter (JArr xs # st) t =
     (if t = JComma then Some (JValue, JArr xs # st)
      else if t = JRBrack then jdeliver (PList xs) st else None)"
| "jstep JAfter (JObj kvs # st) t =
     (if t = JComma then Some (JName, JObj kvs # st)
      else if t = JRBrace then jdeliver (PDict kvs) st else None)"
| "jstep JAfter _ t = None"
| "jstep (JEnd v) st t = None"

fun jrun :: "jmode \<Rightarrow> jframe list \<Rightarrow> jtok list \<Rightarrow> pyval option" where
  "jrun m st [] = (case m of JEnd v \<Rightarrow> Some v | _ \<Rightarrow> None)"
| "jrun m st (t # ts) = (case jstep m st t of None \<Rightarrow> None | Some (m', st') \<Rightarrow> jrun m' st' ts)"

definition json_loads :: "string \<Rightarrow> pyval option" where
  "json_loads s = (case jlex s of None \<Rightarrow> None | Some ts \<Rightarrow> jrun JValue [] ts)"

section \<open>The lenient decoder's library call: \<^verbatim>\<open>ast.literal_eval\<close>\<close>

text \<open>
  What \<^verbatim>\<open>ast.literal_eval\<close> raises.  \<^verbatim>\<open>ValueError\<close> and \<^verbatim>\<open>SyntaxError\<close> are the two
  that \<^verbatim>\<open>try_parse_with_ast\<close> catches; a \<^verbatim>\<open>TypeError\<close> carries the text that
  \<^verbatim>\<open>str(e)\<close> gives.
\<close>

datatype lit_error = ValueError | SyntaxError | TypeError string

text \<open>
  \<^verbatim>\<open>ast.literal_eval\<close> parses its argument as a Python expression and converts the
  syntax tree, refusing every node that is not a literal.  The model covers this
  part of Python's expression syntax: decimal integers and floats, double-quoted
  strings without prefix (adjacent strings are joined), \<^verbatim>\<open>True\<close>, \<^verbatim>\<open>False\<close>,
  \<^verbatim>\<open>None\<close>, ASCII identifiers, calls \<^verbatim>\<open>f(...)\<close> of an identifier, the displays
  \<^verbatim>\<open>[...]\<close>, \<^verbatim>\<open>(...)\<close>, \<^verbatim>\<open>{...}\<close>, \<^verbatim>\<open>{k: v}\<close>, the signs \<^verbatim>\<open>+\<close> and \<^verbatim>\<open>-\<close>, comments
  and line breaks.  Text outside this part (other operators, keywords, string
  prefixes and triple quotes, numeric escapes, hexadecimal and complex numbers,
  digit separators, \<^verbatim>\<open>...\<close>) is answered with \<^verbatim>\<open>SyntaxError\<close>; the theorems below
  that evaluate the decoder do so on text inside it.  Single quotes never reach
  the parser: the program replaces them first.
\<close>

datatype ptok =
    TLBrace | TRBrace | TLBrack | TRBrack | TLParen | TRParen | TComma | TColon
  | TPlus | TMinus | TName string | TConst pyval | TString "nat list" | TNewline

text \<open>What a backslash in a string does with the character after it.\<close>

datatype escape = Known nat | Keep | Unmodelled

definition py_escape :: "char \<Rightarrow> escape" where
  "py_escape e =
     (if e = CHR 0x5C then Known 92 else if e = CHR 0x22 then Known 34
      else if e = CHR 0x27 then Known 39 else if e = CHR ''n'' then Known 10
      else if e = CHR ''r'' then Known 13 else if e = CHR ''t'' then Known 9
      else if e = CHR ''a'' then Known 7 else if e = CHR ''b'' then Known 8
      else if e = CHR ''f'' then Known 12 else if e = CHR ''v'' then Known 11
      else if (48 \<le> code e \<and> code e \<le> 55) \<or> e = CHR ''x'' \<or> e = CHR ''u'' \<or> e = CHR ''U''
              \<or> e = CHR ''N'' \<or> e = CHR 0x0A \<or> e = CHR 0x0D then Unmodelled
      else Keep)"

text \<open>The body of a string after the opening quote, and the text after the closing one.\<close>

fun py_string :: "string \<Rightarrow> (nat list \<times> string) option" where
  "py_string [] = None"
| "py_string [c] = (if c = CHR 0x22 then Some ([], []) else None)"
| "py_string (c # e # es) =
     (if c = CHR 0x22 then Some ([], e # es)
      else if c = CHR 0x0A \<or> c = CHR 0x0D \<or> c = CHR 0x00 then None
      else if c = CHR 0x5C then
        (case py_escape e of
           Known k \<Rightarrow> map_option (\<lambda>(t, r). (k # t, r)) (py_string es)
         | Keep \<Rightarrow> map_option (\<lambda>(t, r). (92 # code e # t, r)) (py_string es)
         | Unmodelled \<Rightarrow> None)
      else map_option (\<lambda>(t, r). (code c # t, r)) (py_string (e # es)))"

lemma py_string_shorter: "py_string s = Some (t, rest) \<Longrightarrow> length rest < length s"
proof (induction s arbitrary: t rest rule: py_string.induct)
  case 1
  then show ?case by simp
next
  case (2 c)
  then show ?case by (simp split: if_splits)
next
  case (3 c e es)
  show ?case
  proof (cases "c = CHR 0x22")
    case True
    with "3.prems" show ?thesis by simp
  next
    case nq: False
    show ?thesis
    proof (cases "c = CHR 0x5C")
      case True
      with nq "3.prems" obtain t1 where "py_string es = Some (t1, rest)"
        and "py_escape e \<noteq> Unmodelled"
        by (auto split: if_splits escape.splits)
      with "3.IH"(1,2) nq True have "length rest < length es"
        by (cases "py_escape e") (auto split: if_splits)
      then show ?thesis by simp
    next
      case False
      with nq "3.prems" obtain t1 where r: "py_string (e # es) = Some (t1, rest)"
        and ok: "\<not> (c = CHR 0x0A \<or> c = CHR 0x0D \<or> c = CHR 0x00)"
        by (auto split: if_splits)
      from "3.IH"(3) [OF nq ok False r] show ?thesis by simp
    qed
  qed
qed


text \<open>The characters of an identifier.\<close>
definition is_ident :: "char \<Rightarrow> bool" where
  "is_ident c = (let n = code c in
     (48 \<le> n \<and> n \<le> 57) \<or> (65 \<le> n \<and> n \<le> 90) \<or> n = 95 \<or> (97 \<le> n \<and> n \<le> 122))"

text \<open>
  A number: digits, an optional point with digits, an optional exponent; no
  identifier character directly after it.  An integer has no leading zero unless
  it is zero.
\<close>
definition py_exponent :: "string \<Rightarrow> (int \<times> string) option" where
  "py_exponent s =
     (case s of
        [] \<Rightarrow> None
      | g # ds \<Rightarrow>
          if g = CHR ''-'' then json_exp_digits True ds
          else if g = CHR ''+'' then json_exp_digits False ds
          else json_exp_digits False s)"

definition py_number :: "string \<Rightarrow> (pyval \<times> string) option" where
  "py_number s =
     (let d1 = takeWhile is_digit s;
          r1 = dropWhile is_digit s;
          dot = (case r1 of [] \<Rightarrow> False | c # _ \<Rightarrow> c = CHR ''.'');
          d2 = (if dot then takeWhile is_digit (tl r1) else []);
          r2 = (if dot then dropWhile is_digit (tl r1) else r1);
          ex = (case r2 of [] \<Rightarrow> False | c # _ \<Rightarrow> c = CHR ''e'' \<or> c = CHR ''E'');
          ev = (if ex then py_exponent (tl r2) else Some (0, r2))
      in case ev of
           None \<Rightarrow> None
         | Some (e, r3) \<Rightarrow>
             if (case r3 of [] \<Rightarrow> False | c # _ \<Rightarrow> is_ident c \<or> 128 \<le> code c) then None
             else if \<not> dot \<and> \<not> ex then
               (if d1 \<noteq> [] \<and> (hd d1 \<noteq> CHR ''0'' \<or> (\<forall>c \<in> set d1. c = CHR ''0''))
                then Some (PInt (int_of_digits d1), r3) else None)
             else if d1 = [] \<and> d2 = [] then None
             else Some (PFloat (norm_dec (int_of_digits (d1 @ d2)) (e - int (length d2))), r3))"

lemma py_number_shorter:
  assumes "py_number s = Some (v, rest)"
  shows "length rest < length s"
proof -
  define d1 where "d1 = takeWhile is_digit s"
  define r1 where "r1 = dropWhile is_digit s"
  define dot where "dot = (case r1 of [] \<Rightarrow> False | c # _ \<Rightarrow> c = CHR ''.'')"
  define d2 where "d2 = (if dot then takeWhile is_digit (tl r1) else [])"
  define r2 where "r2 = (if dot then dropWhile is_digit (tl r1) else r1)"
  define ex where "ex = (case r2 of [] \<Rightarrow> False | c # _ \<Rightarrow> c = CHR ''e'' \<or> c = CHR ''E'')"
  define ev where "ev = (if ex then py_exponent (tl r2) else Some (0, r2))"
  have unf: "py_number s =
     (case ev of None \<Rightarrow> None
      | Some (e, r3) \<Rightarrow>
          if (case r3 of [] \<Rightarrow> False | c # _ \<Rightarrow> is_ident c \<or> 128 \<le> code c) then None
          else if \<not> dot \<and> \<not> ex then
            (if d1 \<noteq> [] \<and> (hd d1 \<noteq> CHR ''0'' \<or> (\<forall>c \<in> set d1. c = CHR ''0''))
             then Some (PInt (int_of_digits d1), r3) else None)
          else if d1 = [] \<and> d2 = [] then None
          else Some (PFloat (norm_dec (int_of_digits (d1 @ d2)) (e - int (length d2))), r3))"
    unfolding py_number_def Let_def ev_def ex_def r2_def d2_def dot_def r1_def d1_def ..
  from assms unf obtain e where ev: "ev = Some (e, rest)"
    by (auto split: option.splits if_splits)
  have s_eq: "length s = length d1 + length r1"
    unfolding d1_def r1_def by (metis length_append takeWhile_dropWhile_id)
  have r1_eq: "dot \<Longrightarrow> length r1 = Suc (length d2 + length r2)"
  proof -
    assume d: dot
    then obtain cs where "r1 = CHR ''.'' # cs" by (auto simp: dot_def split: list.splits)
    moreover have "length cs = length (takeWhile is_digit cs) + length (dropWhile is_digit cs)"
      by (metis length_append takeWhile_dropWhile_id)
    ultimately show ?thesis using d by (simp add: d2_def r2_def)
  qed
  have r2_le: "length r2 \<le> length r1"
    using r1_eq by (cases dot) (auto simp: r2_def)
  have ed: "\<And>b a x r. json_exp_digits b a = Some (x, r) \<Longrightarrow> length r < length a"
    by (auto simp: json_exp_digits_def le_imp_less_Suc length_dropWhile_le split: list.splits if_splits)
  have pe: "\<And>a x r. py_exponent a = Some (x, r) \<Longrightarrow> length r < length a"
    by (auto simp: py_exponent_def less_SucI split: list.splits if_splits dest!: ed)
  show ?thesis
  proof (cases ex)
    case True
    then have "r2 \<noteq> []" by (auto simp: ex_def)
    moreover have "length rest < length (tl r2)"
      using True ev pe [of "tl r2" e rest] by (simp add: ev_def)
    ultimately have "length rest < length r2" by (cases r2) auto
    then show ?thesis using r2_le s_eq by simp
  next
    case nex: False
    with ev have rest: "rest = r2" by (simp add: ev_def)
    show ?thesis
    proof (cases dot)
      case True
      then show ?thesis using r1_eq s_eq rest by simp
    next
      case False
      with nex assms unf ev have "d1 \<noteq> []" by (auto split: if_splits)
      moreover from False have "r2 = r1" by (simp add: r2_def)
      ultimately show ?thesis using s_eq rest by (cases d1) auto
    qed
  qed
qed

text \<open>Names: the three constants, the keywords (outside the model), identifiers.\<close>
definition py_keywords :: "string list" where
  "py_keywords = [''and'', ''as'', ''assert'', ''async'', ''await'', ''break'', ''class'',
     ''continue'', ''def'', ''del'', ''elif'', ''else'', ''except'', ''finally'', ''for'',
     ''from'', ''global'', ''if'', ''import'', ''in'', ''is'', ''lambda'', ''nonlocal'',
     ''not'', ''or'', ''pass'', ''raise'', ''return'', ''try'', ''while'', ''with'', ''yield'']"

definition py_string_prefixes :: "string list" where
  "py_string_prefixes = [''r'', ''u'', ''b'', ''f'', ''br'', ''rb'', ''fr'', ''rf'']"

definition py_name :: "string \<Rightarrow> string \<Rightarrow> ptok option" where
  "py_name n rest =
     (if n = ''True'' then Some (TConst (PBool True))
      else if n = ''False'' then Some (TConst (PBool False))
      else if n = ''None'' then Some (TConst PNone)
      else if n \<in> set py_keywords then None
      else if (case rest of [] \<Rightarrow> False | c # _ \<Rightarrow> c = CHR 0x22) \<and> lower n \<in> set py_string_prefixes
      then None
      else Some (TName n))"

definition py_punct :: "char \<Rightarrow> ptok option" where
  "py_punct c =
     (if c = CHR ''{'' then Some TLBrace else if c = CHR ''}'' then Some TRBrace
      else if c = CHR ''['' then Some TLBrack else if c = CHR '']'' then Some TRBrack
      else if c = CHR ''('' then Some TLParen else if c = CHR '')'' then Some TRParen
      else if c = CHR '','' then Some TComma else if c = CHR '':'' then Some TColon
      else if c = CHR ''+'' then Some TPlus else if c = CHR ''-'' then Some TMinus
      else if c = CHR 0x0A \<or> c = CHR 0x0D then Some TNewline
      else None)"

text \<open>The scanner.\<close>

function plex :: "string \<Rightarrow> ptok list option" where
  "plex [] = Some []"
| "plex (c # cs) =
     (if c = CHR '' '' \<or> c = CHR 0x09 \<or> c = CHR 0x0C then plex cs
      else if c = CHR ''#'' then plex (dropWhile (\<lambda>x. x \<noteq> CHR 0x0A \<and> x \<noteq> CHR 0x0D) cs)
      else case py_punct c of
             Some t \<Rightarrow> map_option ((#) t) (plex cs)
           | None \<Rightarrow>
               if c = CHR 0x22 then
                 (if starts_with [CHR 0x22, CHR 0x22] cs then None
                  else case py_string cs of
                         None \<Rightarrow> None
                       | Some (t, rest) \<Rightarrow> map_option ((#) (TString t)) (plex rest))
               else if is_digit c \<or> c = CHR ''.'' then
                 (case py_number (c # cs) of
                    None \<Rightarrow> None
                  | Some (v, rest) \<Rightarrow> map_option ((#) (TConst v)) (plex rest))
               else if is_ident c then
                 (case py_name (c # takeWhile is_ident cs) (dropWhile is_ident cs) of
                    None \<Rightarrow> None
                  | Some t \<Rightarrow> map_option ((#) t) (plex (dropWhile is_ident cs)))
               else None)"
  by pat_completeness auto
termination
  by (relation "measure length")
     (auto simp: le_imp_less_Suc length_dropWhile_le less_SucI
           dest!: py_string_shorter py_number_shorter)


text \<open>
  The syntax tree, as far as the conversion looks at it.  \<open>EDict\<close> has the list of
  the keys and the list of the values, as \<^verbatim>\<open>ast.Dict\<close> has; \<open>EUnary True\<close> is the
  sign \<^verbatim>\<open>-\<close>.
\<close>
datatype py_expr =
    EConst pyval
  | EName string
  | ECall string "py_expr list"
  | EList "py_expr list"
  | ETuple "py_expr list"
  | ESet "py_expr list"
  | EDict "py_expr list" "py_expr list"
  | EUnary bool py_expr

text \<open>
  The parser is a stack machine.  A frame is a display that is open, with what has
  been read of it (\<open>FTop\<close> is the expression itself, which may be a tuple without
  parentheses; \<open>FSign\<close> is a sign that waits for its operand); beside the stack
  there is the operand just read, which a call or an adjacent string may extend.
\<close>

datatype pframe =
    FTop "py_expr list" bool
  | FList "py_expr list"
  | FParen "py_expr list" bool
  | FCall string "py_expr list"
  | FBrace
  | FSet "py_expr list"
  | FDictK "py_expr list" "py_expr list"
  | FDictV "py_expr list" "py_expr list" py_expr
  | FSign bool

datatype akind = KStr | KName | KOther

fun unsign :: "py_expr \<Rightarrow> pframe list \<Rightarrow> py_expr \<times> pframe list" where
  "unsign e (FSign m # st) = unsign (EUnary m e) st"
| "unsign e st = (e, st)"

fun enclosed :: "pframe list \<Rightarrow> bool" where
  "enclosed [] = False"
| "enclosed (FSign m # st) = enclosed st"
| "enclosed (FTop xs c # st) = False"
| "enclosed (f # st) = True"

definition pclosing :: "ptok \<Rightarrow> pframe list \<Rightarrow> ((py_expr \<times> akind) option \<times> pframe list) option" where
  "pclosing t st =
     (case st of
        [] \<Rightarrow> None
      | f # st' \<Rightarrow>
          (case f of
             FList xs \<Rightarrow> if t = TRBrack then Some (Some (EList xs, KOther), st') else None
           | FParen xs c \<Rightarrow> if t = TRParen then Some (Some (ETuple xs, KOther), st') else None
           | FCall n xs \<Rightarrow> if t = TRParen then Some (Some (ECall n xs, KOther), st') else None
           | FBrace \<Rightarrow> if t = TRBrace then Some (Some (EDict [] [], KOther), st') else None
           | FSet xs \<Rightarrow> if t = TRBrace then Some (Some (ESet xs, KOther), st') else None
           | FDictK ks vs \<Rightarrow> if t = TRBrace then Some (Some (EDict ks vs, KOther), st') else None
           | FDictV ks vs k \<Rightarrow> None
           | FTop xs c \<Rightarrow> None
           | FSign m \<Rightarrow> None))"

definition popen :: "ptok \<Rightarrow> pframe list \<Rightarrow> ((py_expr \<times> akind) option \<times> pframe list) option" where
  "popen t st =
     (case t of
        TConst v \<Rightarrow> Some (Some (EConst v, KOther), st)
      | TString s \<Rightarrow> Some (Some (EConst (PStr s), KStr), st)
      | TName n \<Rightarrow> Some (Some (EName n, KName), st)
      | TPlus \<Rightarrow> Some (None, FSign False # st)
      | TMinus \<Rightarrow> Some (None, FSign True # st)
      | TLBrack \<Rightarrow> Some (None, FList [] # st)
      | TLParen \<Rightarrow> Some (None, FParen [] False # st)
      | TLBrace \<Rightarrow> Some (None, FBrace # st)
      | TRBrack \<Rightarrow> pclosing t st
      | TRParen \<Rightarrow> pclosing t st
      | TRBrace \<Rightarrow> pclosing t st
      | TComma \<Rightarrow> None
      | TColon \<Rightarrow> None
      | TNewline \<Rightarrow> None)"

definition pdeliver :: "py_expr \<Rightarrow> ptok \<Rightarrow> pframe list \<Rightarrow> ((py_expr \<times> akind) option \<times> pframe list) option" where
  "pdeliver e t st =
     (case st of
        [] \<Rightarrow> None
      | f # st' \<Rightarrow>
          (case f of
             FList xs \<Rightarrow>
               if t = TComma then Some (None, FList (xs @ [e]) # st')
               else if t = TRBrack then Some (Some (EList (xs @ [e]), KOther), st')
               else None
           | FParen xs c \<Rightarrow>
               if t = TComma then Some (None, FParen (xs @ [e]) True # st')
               else if t = TRParen then Some (Some (if c then ETuple (xs @ [e]) else e, KOther), st')
               else None
           | FCall n xs \<Rightarrow>
               if t = TComma then Some (None, FCall n (xs @ [e]) # st')
               else if t = TRParen then Some (Some (ECall n (xs @ [e]), KOther), st')
               else None
           | FBrace \<Rightarrow>
               if t = TComma then Some (None, FSet [e] # st')
               else if t = TRBrace then Some (Some (ESet [e], KOther), st')
               else if t = TColon then Some (None, FDictV [] [] e # st')
               else None
           | FSet xs \<Rightarrow>
               if t = TComma then Some (None, FSet (xs @ [e]) # st')
               else if t = TRBrace then Some (Some (ESet (xs @ [e]), KOther), st')
               else None
           | FDictK ks vs \<Rightarrow>
               if t = TColon then Some (None, FDictV ks vs e # st') else None
           | FDictV ks vs k \<Rightarrow>
               if t = TComma then Some (None, FDictK (ks @ [k]) (vs @ [e]) # st')
               else if t = TRBrace then Some (Some (EDict (ks @ [k]) (vs @ [e]), KOther), st')
               else None
           | FTop xs c \<Rightarrow>
               if t = TComma then Some (None, FTop (xs @ [e]) True # st') else None
           | FSign m \<Rightarrow> None))"

definition pclose :: "py_expr \<Rightarrow> akind \<Rightarrow> ptok \<Rightarrow> pframe list \<Rightarrow> ((py_expr \<times> akind) option \<times> pframe list) option" where
  "pclose e k t st =
     (case (e, k, t) of
        (EConst (PStr a), KStr, TString b) \<Rightarrow> Some (Some (EConst (PStr (a @ b)), KStr), st)
      | (EName n, KName, TLParen) \<Rightarrow> Some (None, FCall n [] # st)
      | _ \<Rightarrow> (case unsign e st of (e', st') \<Rightarrow> pdeliver e' t st'))"

definition pfinish :: "(py_expr \<times> akind) option \<Rightarrow> pframe list \<Rightarrow> py_expr option" where
  "pfinish p st =
     (case p of
        Some (e, k) \<Rightarrow>
          (case unsign e st of
             (e', [FTop xs c]) \<Rightarrow> Some (if c then ETuple (xs @ [e']) else e')
           | _ \<Rightarrow> None)
      | None \<Rightarrow> (case st of [FTop xs True] \<Rightarrow> Some (ETuple xs) | _ \<Rightarrow> None))"

fun prun :: "(py_expr \<times> akind) option \<Rightarrow> pframe list \<Rightarrow> ptok list \<Rightarrow> py_expr option" where
  "prun p st [] = pfinish p st"
| "prun p st (t # ts) =
     (if t = TNewline then
        (if enclosed st \<or> (p = None \<and> st = [FTop [] False]) then prun p st ts
         else if \<forall>u \<in> set ts. u = TNewline then pfinish p st
         else None)
      else case (case p of None \<Rightarrow> popen t st | Some (e, k) \<Rightarrow> pclose e k t st) of
             None \<Rightarrow> None
           | Some (p', st') \<Rightarrow> prun p' st' ts)"

definition py_parse :: "string \<Rightarrow> py_expr option" where
  "py_parse s = (case plex s of None \<Rightarrow> None | Some ts \<Rightarrow> prun None [FTop [] False] ts)"

text \<open>
  The conversion.  A member of a set and a key of a dictionary are hashed when they
  are inserted, one after the other; a list, a dictionary or a set cannot be hashed,
  and the \<^verbatim>\<open>TypeError\<close> names the type.
\<close>

fun unhashable :: "pyval \<Rightarrow> string option"
  and unhashable_first :: "pyval list \<Rightarrow> string option" where
  "unhashable (PList xs) = Some ''list''"
| "unhashable (PDict kvs) = Some ''dict''"
| "unhashable (PSet xs) = Some ''set''"
| "unhashable (PTuple xs) = unhashable_first xs"
| "unhashable PNone = None"
| "unhashable (PBool b) = None"
| "unhashable (PInt i) = None"
| "unhashable (PFloat f) = None"
| "unhashable (PStr s) = None"
| "unhashable_first [] = None"
| "unhashable_first (x # xs) = (case unhashable x of Some t \<Rightarrow> Some t | None \<Rightarrow> unhashable_first xs)"

definition unhashable_error :: "string \<Rightarrow> lit_error" where
  "unhashable_error ty = TypeError (''unhashable type: '' @ [CHR 0x27] @ ty @ [CHR 0x27])"

definition neg_float :: "pyfloat \<Rightarrow> pyfloat" where
  "neg_float f = (case f of Dec m e \<Rightarrow> Dec (- m) e | NaN \<Rightarrow> NaN | PosInf \<Rightarrow> NegInf | NegInf \<Rightarrow> PosInf)"

fun collect :: "(lit_error + pyval) list \<Rightarrow> lit_error + pyval list" where
  "collect [] = Inr []"
| "collect (r # rs) =
     (case r of
        Inl x \<Rightarrow> Inl x
      | Inr v \<Rightarrow> (case collect rs of Inl x \<Rightarrow> Inl x | Inr vs \<Rightarrow> Inr (v # vs)))"

fun build_set :: "pyval list \<Rightarrow> (lit_error + pyval) list \<Rightarrow> lit_error + pyval list" where
  "build_set acc [] = Inr acc"
| "build_set acc (r # rs) =
     (case r of
        Inl x \<Rightarrow> Inl x
      | Inr v \<Rightarrow>
          (case unhashable v of
             Some ty \<Rightarrow> Inl (unhashable_error ty)
           | None \<Rightarrow> build_set (if v \<in> set acc then acc else acc @ [v]) rs))"

fun build_dict :: "(pyval \<times> pyval) list \<Rightarrow> ((lit_error + pyval) \<times> (lit_error + pyval)) list
                    \<Rightarrow> lit_error + (pyval \<times> pyval) list" where
  "build_dict acc [] = Inr acc"
| "build_dict acc ((rk, rv) # rs) =
     (case rk of
        Inl x \<Rightarrow> Inl x
      | Inr k \<Rightarrow>
          (case rv of
             Inl x \<Rightarrow> Inl x
           | Inr v \<Rightarrow>
               (case unhashable k of
                  Some ty \<Rightarrow> Inl (unhashable_error ty)
                | None \<Rightarrow> build_dict (dict_set acc k v) rs)))"

fun convert :: "py_expr \<Rightarrow> lit_error + pyval" where
  "convert (EConst v) = Inr v"
| "convert (EName n) = Inl ValueError"
| "convert (ECall n args) = (if n = ''set'' \<and> args = [] then Inr (PSet []) else Inl ValueError)"
| "convert (EList es) = (case collect (map convert es) of Inl x \<Rightarrow> Inl x | Inr vs \<Rightarrow> Inr (PList vs))"
| "convert (ETuple es) = (case collect (map convert es) of Inl x \<Rightarrow> Inl x | Inr vs \<Rightarrow> Inr (PTuple vs))"
| "convert (ESet es) = (case build_set [] (map convert es) of Inl x \<Rightarrow> Inl x | Inr vs \<Rightarrow> Inr (PSet vs))"
| "convert (EDict ks vs) =
     (if length ks \<noteq> length vs then Inl ValueError
      else case build_dict [] (zip (map convert ks) (map convert vs)) of
             Inl x \<Rightarrow> Inl x
           | Inr d \<Rightarrow> Inr (PDict d))"
| "convert (EUnary m e) =
     (case e of
        EConst (PInt i) \<Rightarrow> Inr (PInt (if m then - i else i))
      | EConst (PFloat f) \<Rightarrow> Inr (PFloat (if m then neg_float f else f))
      | _ \<Rightarrow> Inl ValueError)"

definition literal_eval :: "string \<Rightarrow> lit_error + pyval" where
  "literal_eval s = (case py_parse s of None \<Rightarrow> Inl SyntaxError | Some e \<Rightarrow> convert e)"


section \<open>The strategies of \<^verbatim>\<open>EnhancedJSONParser\<close>\<close>

text \<open>
  \<^verbatim>\<open>try_parse_json\<close>: the decoded value, or \<^verbatim>\<open>None\<close> when \<^verbatim>\<open>json.loads\<close> raises.
\<close>

definition try_parse_json :: "string \<Rightarrow> pyval" where
  "try_parse_json json_str = (case json_loads json_str of Some v \<Rightarrow> v | None \<Rightarrow> PNone)"

text \<open>
  An exception that is not caught where it is raised, with the text \<^verbatim>\<open>str(e)\<close>
  gives.
\<close>

datatype exn = Exn (message: string)

text \<open>
  \<^verbatim>\<open>try_parse_with_ast\<close>: every single quote becomes a double quote, then
  \<^verbatim>\<open>ast.literal_eval\<close>; \<^verbatim>\<open>ValueError\<close> and \<^verbatim>\<open>SyntaxError\<close> give \<^verbatim>\<open>None\<close>, any other
  exception leaves the function.
\<close>

definition try_parse_with_ast :: "string \<Rightarrow> exn + pyval" where
  "try_parse_with_ast json_str =
     (case literal_eval (replace_char (CHR 0x27) (CHR 0x22) json_str) of
        Inr v \<Rightarrow> Inr v
      | Inl ValueError \<Rightarrow> Inr PNone
      | Inl SyntaxError \<Rightarrow> Inr PNone
      | Inl (TypeError m) \<Rightarrow> Inl (Exn m))"

text \<open>\<^verbatim>\<open>\b(\d+)\b\<close>\<close>

definition number_re :: re where
  "number_re = Cat Wb (Cat (Grp (Plus (Cls is_digit))) Wb)"

text \<open>\<^verbatim>\<open>xs[a:b]\<close> for \<open>a \<le> b\<close> within the list or beyond its end.\<close>

definition slice :: "nat \<Rightarrow> nat \<Rightarrow> 'a list \<Rightarrow> 'a list" where
  "slice a b xs = take (b - a) (drop a xs)"

text \<open>\<^verbatim>\<open>extract_scores_from_text\<close>: the dictionary with its two lists.\<close>

record scores =
  ad_attitude_scores :: "int list"
  purchase_intention_scores :: "int list"

definition extract_scores_from_text :: "string \<Rightarrow> scores" where
  "extract_scores_from_text text =
     (let numbers = re_findall number_re text in
      if numbers \<noteq> [] then
        (let nums = map int_of_digits
                      (filter (\<lambda>n. 1 \<le> int_of_digits n \<and> int_of_digits n \<le> 7) numbers)
         in \<lparr>ad_attitude_scores =
               (if str_in ''attitude'' (lower text) \<or> str_in ''like'' (lower text)
                then (if length nums \<ge> 4 then slice 0 4 nums else nums) else []),
             purchase_intention_scores =
               (if str_in ''intention'' (lower text) \<or> str_in ''purchase'' (lower text)
                then (if length nums \<ge> 7 then slice 4 7 nums else drop 4 nums) else [])\<rparr>)
      else \<lparr>ad_attitude_scores = [], purchase_intention_scores = []\<rparr>)"

text \<open>
  The record of the fallback: \<^verbatim>\<open>{'ad_type': 'unknown'}\<close> updated with the scores.
\<close>

definition scores_record :: "scores \<Rightarrow> pyval" where
  "scores_record sc =
     PDict (dict_update [(pstr ''ad_type'', pstr ''unknown'')]
       [(pstr ''ad_attitude_scores'', PList (map PInt (ad_attitude_scores sc))),
        (pstr ''purchase_intention_scores'', PList (map PInt (purchase_intention_scores sc)))])"

section \<open>The pipeline: \<^verbatim>\<open>parse_response\<close>\<close>

text \<open>The two loops over the blocks: the first truthy result ends the loop.\<close>

fun first_json :: "string list \<Rightarrow> pyval option" where
  "first_json [] = None"
| "first_json (block # blocks) =
     (let parsed = try_parse_json block
      in if truthy parsed then Some parsed else first_json blocks)"

fun first_ast :: "string list \<Rightarrow> exn + pyval option" where
  "first_ast [] = Inr None"
| "first_ast (block # blocks) =
     (case try_parse_with_ast block of
        Inl e \<Rightarrow> Inl e
      | Inr parsed \<Rightarrow> if truthy parsed then Inr (Some parsed) else first_ast blocks)"

text \<open>
  \<^verbatim>\<open>parse_response\<close>, with the place where it returns: \<open>Blank\<close> the first
  \<^verbatim>\<open>return None\<close>, \<open>Direct\<close> method 1, \<open>BlockStrict\<close> method 2, \<open>BlockLenient\<close>
  method 3, \<open>Heuristic\<close> method 4, \<open>Exhausted\<close> the last \<^verbatim>\<open>return None\<close>, and
  \<open>Aborted\<close> an exception that leaves method 3.  The result is the returned value
  (\<open>PNone\<close> for \<^verbatim>\<open>None\<close>) or the exception.
\<close>

datatype strategy = Blank | Direct | BlockStrict | BlockLenient | Heuristic | Exhausted | Aborted

definition parse_response_traced :: "string \<Rightarrow> strategy \<times> (exn + pyval)" where
  "parse_response_traced response_text =
     (if strip response_text = [] then (Blank, Inr PNone)
      else
        let cleaned_text = clean_json_string response_text;
            parsed = try_parse_json cleaned_text
        in if truthy parsed then (Direct, Inr parsed)
           else
             let json_blocks = extract_json_blocks cleaned_text
             in case first_json json_blocks of
                  Some v \<Rightarrow> (BlockStrict, Inr v)
                | None \<Rightarrow>
                    (case first_ast json_blocks of
                       Inl e \<Rightarrow> (Aborted, Inl e)
                     | Inr (Some v) \<Rightarrow> (BlockLenient, Inr v)
                     | Inr None \<Rightarrow>
                         (let sc = extract_scores_from_text response_text
                          in if ad_attitude_scores sc \<noteq> [] \<or> purchase_intention_scores sc \<noteq> []
                             then (Heuristic, Inr (scores_record sc))
                             else (Exhausted, Inr PNone))))"

definition parse_response :: "string \<Rightarrow> exn + pyval" where
  "parse_response response_text = snd (parse_response_traced response_text)"


section \<open>Files and statistics\<close>

text \<open>The name of a value's type, as an error message prints it.\<close>

fun type_name :: "pyval \<Rightarrow> string" where
  "type_name PNone = ''NoneType''"
| "type_name (PBool b) = ''bool''"
| "type_name (PInt i) = ''int''"
| "type_name (PFloat f) = ''float''"
| "type_name (PStr s) = ''str''"
| "type_name (PList xs) = ''list''"
| "type_name (PTuple xs) = ''tuple''"
| "type_name (PSet xs) = ''set''"
| "type_name (PDict kvs) = ''dict''"

text \<open>\<^verbatim>\<open>{**metadata, **parsed_json}\<close>: both must be dictionaries.\<close>

definition not_a_mapping :: "pyval \<Rightarrow> exn" where
  "not_a_mapping v = Exn ([CHR 0x27] @ type_name v @ [CHR 0x27] @ '' object is not a mapping'')"

definition merge :: "pyval \<Rightarrow> pyval \<Rightarrow> exn + pyval" where
  "merge metadata parsed_json =
     (case metadata of
        PDict m \<Rightarrow>
          (case parsed_json of
             PDict d \<Rightarrow> Inr (PDict (dict_update m d))
           | _ \<Rightarrow> Inl (not_a_mapping parsed_json))
      | _ \<Rightarrow> Inl (not_a_mapping metadata))"

text \<open>
  \<^verbatim>\<open>process_file\<close>.  The two files are given by what reading them yields: the text
  of the response file or the exception of \<^verbatim>\<open>open\<close> and \<^verbatim>\<open>read\<close>; for the metadata
  file nothing when it does not exist, else the decoded value or the exception of
  \<^verbatim>\<open>open\<close> and \<^verbatim>\<open>json.load\<close>.  Every exception is caught and becomes the message.
\<close>

definition process_file :: "exn + string \<Rightarrow> (exn + pyval) option \<Rightarrow> bool \<times> string \<times> pyval option" where
  "process_file response_file metadata_file =
     (case response_file of
        Inl e \<Rightarrow> (False, message e, None)
      | Inr response_text \<Rightarrow>
          (case (case metadata_file of None \<Rightarrow> Inr (PDict []) | Some r \<Rightarrow> r) of
             Inl e \<Rightarrow> (False, message e, None)
           | Inr metadata \<Rightarrow>
               (case parse_response response_text of
                  Inl e \<Rightarrow> (False, message e, None)
                | Inr parsed_json \<Rightarrow>
                    if truthy parsed_json then
                      (case merge metadata parsed_json of
                         Inl e \<Rightarrow> (False, message e, None)
                       | Inr result \<Rightarrow> (True, ''Success'', Some result))
                    else (False, ''No valid JSON found'', None))))"

text \<open>
  \<^verbatim>\<open>json.dump(result, f, indent=2, ensure_ascii=False)\<close> into a file opened with
  \<^verbatim>\<open>encoding='utf-8'\<close> raises when the value holds a set, a dictionary key that is
  not a string, a number, a boolean or \<^verbatim>\<open>None\<close>, or a string with a surrogate code
  point, which UTF-8 cannot encode.
\<close>

definition has_surrogate :: "nat list \<Rightarrow> bool" where
  "has_surrogate s = list_ex (\<lambda>c. 55296 \<le> c \<and> c \<le> 57343) s"

fun dump_raises :: "pyval \<Rightarrow> bool"
  and dump_raises_list :: "pyval list \<Rightarrow> bool"
  and dump_raises_items :: "(pyval \<times> pyval) list \<Rightarrow> bool" where
  "dump_raises PNone = False"
| "dump_raises (PBool b) = False"
| "dump_raises (PInt i) = False"
| "dump_raises (PFloat f) = False"
| "dump_raises (PStr s) = has_surrogate s"
| "dump_raises (PList xs) = dump_raises_list xs"
| "dump_raises (PTuple xs) = dump_raises_list xs"
| "dump_raises (PSet xs) = True"
| "dump_raises (PDict kvs) = dump_raises_items kvs"
| "dump_raises_list [] = False"
| "dump_raises_list (x # xs) = (dump_raises x \<or> dump_raises_list xs)"
| "dump_raises_items [] = False"
| "dump_raises_items ((k, v) # kvs) =
     ((case k of PStr s \<Rightarrow> has_surrogate s | PInt i \<Rightarrow> False | PFloat f \<Rightarrow> False
       | PBool b \<Rightarrow> False | PNone \<Rightarrow> False | _ \<Rightarrow> True)
      \<or> dump_raises v \<or> dump_raises_items kvs)"

text \<open>\<^verbatim>\<open>self.stats\<close>\<close>

record stats =
  total_processed :: nat
  successful :: nat
  failed :: nat
  error_types :: "string \<rightharpoonup> nat"

text \<open>\<^verbatim>\<open>__init__\<close>\<close>

definition init_stats :: stats where
  "init_stats = \<lparr>total_processed = 0, successful = 0, failed = 0, error_types = Map.empty\<rparr>"

text \<open>
  The loop of \<^verbatim>\<open>process_experiment_directory\<close> over the response files of a
  directory, each given by what reading its two files yields.  The result is the
  statistics when the loop ends and whether it ended by an exception: nothing
  catches what \<^verbatim>\<open>json.dump\<close> raises, nor what reading the response file again
  raises when the error report is written.  Creating the directory, listing it and
  opening the output files are taken to succeed.
\<close>

record response_files =
  response :: "exn + string"
  metadata :: "(exn + pyval) option"

definition error_type_of :: "string \<Rightarrow> string" where
  "error_type_of error_msg =
     (if CHR '':'' \<in> set error_msg then takeWhile (\<lambda>c. c \<noteq> CHR '':'') error_msg else error_msg)"

fun process_experiment_directory :: "stats \<Rightarrow> response_files list \<Rightarrow> stats \<times> bool" where
  "process_experiment_directory st [] = (st, False)"
| "process_experiment_directory st (f # fs) =
     (let st1 = st\<lparr>total_processed := total_processed st + 1\<rparr>
      in case process_file (response f) (metadata f) of
           (success, error_msg, result) \<Rightarrow>
             if success then
               (if (case result of None \<Rightarrow> False | Some r \<Rightarrow> dump_raises r) then (st1, True)
                else process_experiment_directory (st1\<lparr>successful := successful st1 + 1\<rparr>) fs)
             else
               (let error_type = error_type_of error_msg;
                    st2 = st1\<lparr>failed := failed st1 + 1,
                             error_types := (error_types st1)(error_type \<mapsto>
                               (case error_types st1 error_type of None \<Rightarrow> 0 | Some n \<Rightarrow> n) + 1)\<rparr>
                in case response f of
                     Inl e \<Rightarrow> (st2, True)
                   | Inr response_text \<Rightarrow> process_experiment_directory st2 fs))"

section \<open>The order of the strategies\<close>


lemma first_json_Some: "first_json bs = Some v \<Longrightarrow> truthy v \<and> (\<exists>b \<in> set bs. v = try_parse_json b)"
  by (induction bs) (auto simp: Let_def split: if_splits)





section \<open>The quote substitution of the lenient decoder\<close>




section \<open>The fallback on free text\<close>


section \<open>What the lenient decoder accepts\<close>









section \<open>Blank input\<close>

text \<open>
  Claim C9, as the code has it.  On a text that is empty or white space only
  \<^verbatim>\<open>parse_response\<close> returns \<^verbatim>\<open>None\<close> and \<^verbatim>\<open>process_file\<close>, when the metadata file
  is absent or readable, returns the failure with the message
  \<^verbatim>\<open>No valid JSON found\<close>, which is also the error type that is counted.
\<close>

theorem C9_blank_input:
  "strip text = [] \<Longrightarrow>
     parse_response text = Inr PNone
     \<and> process_file (Inr text) None = (False, ''No valid JSON found'', None)
     \<and> process_file (Inr text) (Some (Inr m)) = (False, ''No valid JSON found'', None)
     \<and> error_type_of (fst (snd (process_file (Inr text) None))) = ''No valid JSON found''"
proof -
  assume b: "strip text = []"
  then have p: "parse_response text = Inr PNone"
    by (simp add: parse_response_def parse_response_traced_def)
  have e: "error_type_of ''No valid JSON found'' = ''No valid JSON found''"
    by (simp add: error_type_of_def)
  show ?thesis using p e by (simp add: process_file_def)
qed

theorem C9_witness:
  "parse_response [CHR '' '', CHR 0x0A] = Inr PNone
   \<and> process_file (Inr [CHR '' '', CHR 0x0A]) None = (False, ''No valid JSON found'', None)"
proof -
  have "strip [CHR '' '', CHR 0x0A] = []" by code_simp
  from C9_blank_input [OF this] show ?thesis by simp
qed

text \<open>
  The claim as stated fails: the failure of the empty text is the failure of a text
  that no strategy recovers anything from; there is no error kind for empty input.
\<close>

theorem C9_counterexample:
  "process_file (Inr '''') None = (False, ''No valid JSON found'', None)
   \<and> process_file (Inr ''Sorry, I cannot answer.'') None = (False, ''No valid JSON found'', None)"
  by code_simp

section \<open>The counters\<close>

text \<open>
  When the loop over a directory ends without an exception, every file has been
  counted once in the total and once as successful or as failed.
\<close>

lemma directory_counts:
  "process_experiment_directory st fs = (st', False) \<Longrightarrow>
     total_processed st' = total_processed st + length fs
     \<and> successful st' + failed st' = successful st + failed st + length fs"
proof (induction fs arbitrary: st)
  case Nil
  then show ?case by simp
next
  case (Cons f fs)
  obtain success error_msg result where pf: "process_file (response f) (metadata f) = (success, error_msg, result)"
    by (cases "process_file (response f) (metadata f)") auto
  show ?case
  proof (cases success)
    case True
    with Cons.prems pf
    have "process_experiment_directory
            (st\<lparr>total_processed := total_processed st + 1, successful := successful st + 1\<rparr>) fs = (st', False)"
      by (auto simp: Let_def split: if_splits)
    from Cons.IH [OF this] show ?thesis by simp
  next
    case False
    define st2 where "st2 = st\<lparr>total_processed := total_processed st + 1,
        failed := failed st + 1,
        error_types := (error_types st)(error_type_of error_msg \<mapsto>
          (case error_types st (error_type_of error_msg) of None \<Rightarrow> 0 | Some n \<Rightarrow> n) + 1)\<rparr>"
    have st2: "total_processed st2 = total_processed st + 1" "failed st2 = failed st + 1"
      "successful st2 = successful st"
      by (simp_all add: st2_def)
    have rec: "process_experiment_directory st2 fs = (st', False)"
      using Cons.prems pf False by (auto simp: Let_def st2_def split: sum.splits)
    from Cons.IH [OF rec] st2 show ?thesis by simp
  qed
qed

text \<open>
  Claim C10 on a directory with one response file, whose text is
  \<^verbatim>\<open>{'a': {1, 2}}\<close>.  The lenient decoder returns a dictionary that holds a set;
  \<^verbatim>\<open>json.dump\<close> raises on it after the total has been counted and before the success
  is: the loop ends by the exception with a total of 1 and no success and no
  failure counted.
\<close>

theorem C10_aborted_run:
  \<open>(let r = process_experiment_directory init_stats
               [\<lparr>response = Inr ''{'a': {1, 2}}'', metadata = None\<rparr>]
    in total_processed (fst r) = 1 \<and> successful (fst r) = 0 \<and> failed (fst r) = 0 \<and> snd r)\<close>
  by code_simp

section \<open>What a match is: the language of a pattern\<close>

text \<open>
  The words a pattern can match, anchors aside: the usual language of a regular
  expression.  Whatever the matcher finds is a word of the language, and a piece of
  the text.
\<close>

inductive_set star :: "string set \<Rightarrow> string set" for A :: "string set" where
  star_nil: "[] \<in> star A"
| star_step: "u \<in> A \<Longrightarrow> v \<in> star A \<Longrightarrow> u @ v \<in> star A"

primrec lang :: "re \<Rightarrow> string set" where
  "lang (Lit c) = {[c]}"
| "lang (Cls p) = {[x] | x. p x}"
| "lang (Cat r1 r2) = {u @ v | u v. u \<in> lang r1 \<and> v \<in> lang r2}"
| "lang (Star r) = star (lang r)"
| "lang (Lazy r) = star (lang r)"
| "lang (Grp r) = lang r"
| "lang Eos = {[]}"
| "lang Eol = {[]}"
| "lang Wb = {[]}"

text \<open>From \<open>cu\<close> to \<open>cu'\<close> the matcher has read a word of \<open>A\<close>.\<close>

definition consumes :: "string set \<Rightarrow> cursor \<Rightarrow> cursor \<Rightarrow> bool" where
  "consumes A cu cu' = (\<exists>w \<in> A. ahead cu = w @ ahead cu')"

lemma star_greedy_sound:
  assumes f: "\<And>cu cu'. cu' \<in> set (f cu) \<Longrightarrow> consumes A cu cu'"
  shows "cu' \<in> set (star_greedy f n cu) \<Longrightarrow> consumes (star A) cu cu'"
proof (induction n arbitrary: cu)
  case 0
  then show ?case by (auto simp: consumes_def intro: star_nil)
next
  case (Suc n)
  from Suc.prems consider "cu' = cu"
    | c where "c \<in> set (f cu)" "cu' \<in> set (star_greedy f n c)"
    by auto
  then show ?case
  proof cases
    case 1
    then show ?thesis by (auto simp: consumes_def intro: star_nil)
  next
    case 2
    from f [OF 2(1)] obtain u where u: "u \<in> A" "ahead cu = u @ ahead c"
      by (auto simp: consumes_def)
    from Suc.IH [OF 2(2)] obtain v where v: "v \<in> star A" "ahead c = v @ ahead cu'"
      by (auto simp: consumes_def)
    from u v have "u @ v \<in> star A" "ahead cu = (u @ v) @ ahead cu'"
      by (auto intro: star_step)
    then show ?thesis unfolding consumes_def by blast
  qed
qed

lemma star_lazy_sound:
  assumes f: "\<And>cu cu'. cu' \<in> set (f cu) \<Longrightarrow> consumes A cu cu'"
  shows "cu' \<in> set (star_lazy f n cu) \<Longrightarrow> consumes (star A) cu cu'"
proof (induction n arbitrary: cu)
  case 0
  then show ?case by (auto simp: consumes_def intro: star_nil)
next
  case (Suc n)
  from Suc.prems consider "cu' = cu"
    | c where "c \<in> set (f cu)" "cu' \<in> set (star_lazy f n c)"
    by auto
  then show ?case
  proof cases
    case 1
    then show ?thesis by (auto simp: consumes_def intro: star_nil)
  next
    case 2
    from f [OF 2(1)] obtain u where u: "u \<in> A" "ahead cu = u @ ahead c"
      by (auto simp: consumes_def)
    from Suc.IH [OF 2(2)] obtain v where v: "v \<in> star A" "ahead c = v @ ahead cu'"
      by (auto simp: consumes_def)
    from u v have "u @ v \<in> star A" "ahead cu = (u @ v) @ ahead cu'"
      by (auto intro: star_step)
    then show ?thesis unfolding consumes_def by blast
  qed
qed

lemma ms_sound: "cu' \<in> set (ms r cu) \<Longrightarrow> consumes (lang r) cu cu'"
proof (induction r arbitrary: cu cu')
  case (Lit c)
  then show ?case by (auto simp: consumes_def advance_def split: list.splits if_splits)
next
  case (Cls p)
  then show ?case by (auto simp: consumes_def advance_def split: list.splits if_splits)
next
  case (Cat r1 r2)
  from Cat.prems obtain c where c: "c \<in> set (ms r1 cu)" "cu' \<in> set (ms r2 c)" by auto
  from Cat.IH(1) [OF c(1)] obtain u where u: "u \<in> lang r1" "ahead cu = u @ ahead c"
    by (auto simp: consumes_def)
  from Cat.IH(2) [OF c(2)] obtain v where v: "v \<in> lang r2" "ahead c = v @ ahead cu'"
    by (auto simp: consumes_def)
  from u v show ?case by (auto simp: consumes_def)
next
  case (Star r)
  then show ?case using star_greedy_sound [of "ms r" "lang r"] by simp
next
  case (Lazy r)
  then show ?case using star_lazy_sound [of "ms r" "lang r"] by simp
next
  case (Grp r)
  then show ?case by (auto simp: consumes_def)
next
  case Eos
  then show ?case by (auto simp: consumes_def split: if_splits)
next
  case Eol
  then show ?case by (auto simp: consumes_def split: list.splits if_splits)
next
  case Wb
  then show ?case by (auto simp: consumes_def split: if_splits)
qed

lemma match_at_in_ms:
  assumes "match_at r adv p s = Some cu"
  shows "cu \<in> set (ms r \<lparr>behind = p, ahead = s, group1 = []\<rparr>)"
    and "adv \<Longrightarrow> length (ahead cu) < length s"
proof -
  let ?P = "\<lambda>cu. adv \<longrightarrow> length (ahead cu) < length s"
  let ?ys = "ms r \<lparr>behind = p, ahead = s, group1 = []\<rparr>"
  from assms obtain xs where "filter ?P ?ys = cu # xs"
    by (auto simp: match_at_def split: list.splits)
  then have "cu # xs = filter ?P ?ys" by simp
  from Cons_eq_filterD [OF this] obtain us vs where "?ys = us @ cu # vs" "?P cu" by blast
  then show "cu \<in> set ?ys" and "adv \<Longrightarrow> length (ahead cu) < length s" by simp_all
qed

lemma match_at_sound:
  assumes "match_at r adv p s = Some cu"
  shows "\<exists>w \<in> lang r. s = w @ ahead cu"
  using ms_sound [OF match_at_in_ms(1) [OF assms]] by (simp add: consumes_def)

lemma matched_eq: "s = w @ ahead cu \<Longrightarrow> matched s cu = w"
  by (simp add: matched_def)

text \<open>Every piece of a scan that is a match is a word of the language, found in the text.\<close>

lemma scan_sound:
  "Inr (m, cu) \<in> set (scan r adv p s) \<Longrightarrow> m \<in> lang r \<and> (\<exists>a b. s = a @ m @ b)"
proof (induction r adv p s rule: scan.induct)
  case (1 r adv p s)
  show ?case
  proof (cases "match_at r adv p s")
    case None
    with "1.prems" obtain c cs where s: "s = c # cs" and i: "Inr (m, cu) \<in> set (scan r False (Some c) cs)"
      by (auto simp: scan_no_match split: list.splits)
    have "m \<in> lang r \<and> (\<exists>a b. cs = a @ m @ b)"
      using "1.IH" None s i by blast
    then obtain a b where "m \<in> lang r" "cs = a @ m @ b" by blast
    then have "m \<in> lang r" "s = (c # a) @ m @ b" using s by simp_all
    then show ?thesis by blast
  next
    case (Some c0)
    from match_at_sound [OF Some] obtain w where w: "w \<in> lang r" "s = w @ ahead c0" by blast
    show ?thesis
    proof (cases "length (ahead c0) < length s")
      case True
      with "1.prems" Some consider "m = matched s c0" "cu = c0"
        | "Inr (m, cu) \<in> set (scan r False (behind c0) (ahead c0))"
        by (auto simp: scan_match)
      then show ?thesis
      proof cases
        case 1
        with w matched_eq [OF w(2)] have "m \<in> lang r" "s = [] @ m @ ahead c0" by simp_all
        then show ?thesis by blast
      next
        case 2
        have "m \<in> lang r \<and> (\<exists>a b. ahead c0 = a @ m @ b)"
          using "1.IH" Some True 2 by blast
        then obtain a b where "m \<in> lang r" "ahead c0 = a @ m @ b" by blast
        then have "m \<in> lang r" "s = (w @ a) @ m @ b" using w(2) by simp_all
        then show ?thesis by blast
      qed
    next
      case False
      with "1.prems" Some consider "m = []" "cu = c0"
        | "\<not> adv" "Inr (m, cu) \<in> set (scan r True p s)"
        by (auto simp: scan_empty_match split: if_splits)
      then show ?thesis
      proof cases
        case 1
        from w False have "w = []" by (cases w) auto
        with 1 w have "m \<in> lang r" "s = [] @ m @ s" by simp_all
        then show ?thesis by blast
      next
        case 2
        show ?thesis using "1.IH" Some False 2 by blast
      qed
    qed
  qed
qed

lemma re_findall_sound:
  "\<not> has_group r \<Longrightarrow> b \<in> set (re_findall r s) \<Longrightarrow> b \<in> lang r \<and> (\<exists>x y. s = x @ b @ y)"
proof -
  assume g: "\<not> has_group r" and b: "b \<in> set (re_findall r s)"
  then obtain cu where "Inr (b, cu) \<in> set (scan r False None s)"
    by (auto simp: re_findall_def split: sum.splits)
  from scan_sound [OF this] show ?thesis .
qed

section \<open>The blocks of \<^verbatim>\<open>extract_json_blocks\<close>\<close>

text \<open>
  Nesting by a counter: the depth goes up on the opening character, down on the
  closing one, never below zero, and is zero at the end.
\<close>

fun nesting :: "char \<Rightarrow> char \<Rightarrow> nat \<Rightarrow> string \<Rightarrow> bool" where
  "nesting op cl d [] = (d = 0)"
| "nesting op cl d (c # cs) =
     (if c = op then nesting op cl (Suc d) cs
      else if c = cl then (case d of 0 \<Rightarrow> False | Suc d' \<Rightarrow> nesting op cl d' cs)
      else nesting op cl d cs)"

definition balanced :: "char \<Rightarrow> char \<Rightarrow> string \<Rightarrow> bool" where
  "balanced op cl s = nesting op cl 0 s"

lemma nesting_plain:
  "\<forall>c \<in> set x. c \<noteq> op \<and> c \<noteq> cl \<Longrightarrow> nesting op cl d (x @ rest) = nesting op cl d rest"
  by (induction x) auto

lemma star_cls: "w \<in> star {[x] | x. p x} \<Longrightarrow> \<forall>c \<in> set w. p c"
  by (induction rule: star.induct) auto

lemma nesting_group:
  assumes p: "\<And>c. p c \<Longrightarrow> c \<noteq> op \<and> c \<noteq> cl" and ne: "op \<noteq> cl"
    and g: "g \<in> lang (Cat (Lit op) (Cat (Star (Cls p)) (Cat (Lit cl) (Star (Cls p)))))"
  shows "nesting op cl d (g @ rest) = nesting op cl d rest"
proof -
  from g obtain b c where g_eq: "g = op # b @ cl # c"
    and b: "b \<in> star {[x] | x. p x}" and c: "c \<in> star {[x] | x. p x}"
    by auto
  have pb: "\<forall>x \<in> set b. x \<noteq> op \<and> x \<noteq> cl" using star_cls [OF b] p by blast
  have pc: "\<forall>x \<in> set c. x \<noteq> op \<and> x \<noteq> cl" using star_cls [OF c] p by blast
  have "nesting op cl d (g @ rest) = nesting op cl (Suc d) (b @ (cl # c @ rest))"
    by (simp add: g_eq)
  also have "\<dots> = nesting op cl (Suc d) (cl # c @ rest)"
    by (rule nesting_plain [OF pb])
  also have "\<dots> = nesting op cl d (c @ rest)" using ne by simp
  also have "\<dots> = nesting op cl d rest" by (rule nesting_plain [OF pc])
  finally show ?thesis .
qed

lemma nesting_groups:
  assumes p: "\<And>c. p c \<Longrightarrow> c \<noteq> op \<and> c \<noteq> cl" and ne: "op \<noteq> cl"
  shows "gs \<in> star (lang (Cat (Lit op) (Cat (Star (Cls p)) (Cat (Lit cl) (Star (Cls p))))))
         \<Longrightarrow> nesting op cl d (gs @ rest) = nesting op cl d rest"
proof (induction gs rule: star.induct)
  case star_nil
  show ?case by simp
next
  case (star_step u v)
  have "nesting op cl d ((u @ v) @ rest) = nesting op cl d (u @ (v @ rest))" by simp
  also have "\<dots> = nesting op cl d (v @ rest)"
    by (rule nesting_group [OF p ne star_step.hyps(1)])
  also have "\<dots> = nesting op cl d rest" by (rule star_step.IH)
  finally show ?case .
qed

lemma nest2_balanced:
  assumes p: "\<And>c. p c \<Longrightarrow> c \<noteq> op \<and> c \<noteq> cl" and ne: "op \<noteq> cl"
    and w: "w \<in> lang (Cat (Lit op) (Cat (Star (Cls p))
              (Cat (Star (Cat (Lit op) (Cat (Star (Cls p)) (Cat (Lit cl) (Star (Cls p))))))
                   (Lit cl))))"
  shows "balanced op cl w"
proof -
  from w obtain a gs where w_eq: "w = op # a @ gs @ [cl]"
    and a: "a \<in> star {[x] | x. p x}"
    and gs: "gs \<in> star (lang (Cat (Lit op) (Cat (Star (Cls p)) (Cat (Lit cl) (Star (Cls p))))))"
    by auto
  have pa: "\<forall>x \<in> set a. x \<noteq> op \<and> x \<noteq> cl" using star_cls [OF a] p by blast
  have "nesting op cl 0 w = nesting op cl (Suc 0) (a @ (gs @ [cl]))" by (simp add: w_eq)
  also have "\<dots> = nesting op cl (Suc 0) (gs @ [cl])" by (rule nesting_plain [OF pa])
  also have "\<dots> = nesting op cl (Suc 0) [cl]" by (rule nesting_groups [OF p ne gs])
  also have "\<dots> = True" using ne by simp
  finally show ?thesis by (simp add: balanced_def)
qed

lemma json_pattern_balanced: "w \<in> lang json_pattern \<Longrightarrow> balanced (CHR ''{'') (CHR ''}'') w"
  unfolding json_pattern_def
  by (rule nest2_balanced [where p = not_brace]) (auto simp: not_brace_def)

lemma array_pattern_balanced: "w \<in> lang array_pattern \<Longrightarrow> balanced (CHR ''['') (CHR '']'') w"
  unfolding array_pattern_def
  by (rule nest2_balanced [where p = not_bracket]) (auto simp: not_bracket_def)

lemma nested_pattern_shape: "w \<in> lang nested_pattern \<Longrightarrow> \<exists>m. w = CHR ''{'' # m @ ''}''"
  by (auto simp: nested_pattern_def)

text \<open>
  Claim C2, as the code has it.  \<^verbatim>\<open>extract_json_blocks\<close> is three regular
  expression searches, with no depth counter.  It always returns; every block is a
  piece of the text; a block of the first search is balanced in braces, a block of
  the second search is balanced in square brackets; a block of the third search
  starts with an opening brace and ends with a closing brace, and nothing more is
  promised of it.
\<close>

theorem C2_blocks:
  "(\<forall>b \<in> set (re_findall json_pattern text). balanced (CHR ''{'') (CHR ''}'') b)
   \<and> (\<forall>b \<in> set (re_findall array_pattern text). balanced (CHR ''['') (CHR '']'') b)
   \<and> (\<forall>b \<in> set (re_findall nested_pattern text). \<exists>m. b = CHR ''{'' # m @ ''}'')
   \<and> (\<forall>b \<in> set (extract_json_blocks text). \<exists>x y. text = x @ b @ y)"
proof -
  have g: "\<not> has_group json_pattern" "\<not> has_group array_pattern" "\<not> has_group nested_pattern"
    by (simp_all add: json_pattern_def array_pattern_def nested_pattern_def)
  show ?thesis
    using re_findall_sound [OF g(1)] re_findall_sound [OF g(2)] re_findall_sound [OF g(3)]
      json_pattern_balanced array_pattern_balanced nested_pattern_shape
    by (simp add: extract_json_blocks_def) blast
qed

theorem C2_witness:
  \<open>''{"a": {"b": 1}}'' \<in> set (re_findall json_pattern ''x {"a": {"b": 1}} y'')
   \<and> balanced (CHR ''{'') (CHR ''}'') ''{"a": {"b": 1}}''\<close>
proof -
  have m: \<open>''{"a": {"b": 1}}'' \<in> set (re_findall json_pattern ''x {"a": {"b": 1}} y'')\<close>
    by code_simp
  with C2_blocks [of \<open>''x {"a": {"b": 1}} y''\<close>] show ?thesis by blast
qed

text \<open>
  The claim as stated fails: on a nested object the third search stops at the first
  closing brace, and its block is not balanced.
\<close>

theorem C2_counterexample:
  \<open>extract_json_blocks ''{"a": {"b": 1}}'' = [''{"a": {"b": 1}}'', ''{"a": {"b": 1}'']
   \<and> \<not> balanced (CHR ''{'') (CHR ''}'') ''{"a": {"b": 1}''\<close>
  by code_simp

section \<open>Text the sanitizer leaves alone\<close>

text \<open>Where no piece of the text is a word of the pattern, the substitution changes nothing.\<close>

lemma match_at_none:
  assumes "\<And>w rest. w \<in> lang r \<Longrightarrow> t \<noteq> w @ rest"
  shows "match_at r adv p t = None"
proof (cases "match_at r adv p t")
  case None
  then show ?thesis .
next
  case (Some cu)
  from match_at_sound [OF Some] assms show ?thesis by blast
qed

lemma scan_unmatched:
  assumes "\<And>a w b. s = a @ w @ b \<Longrightarrow> w \<notin> lang r"
  shows "scan r adv p s = map Inl s"
  using assms
proof (induction s arbitrary: adv p)
  case Nil
  have "match_at r adv p [] = None"
    by (rule match_at_none) (use Nil in \<open>metis append_Nil\<close>)
  then show ?case by (simp add: scan_no_match)
next
  case (Cons c cs)
  have "match_at r adv p (c # cs) = None"
    by (rule match_at_none) (use Cons.prems in \<open>metis append_Nil\<close>)
  moreover have "scan r False (Some c) cs = map Inl cs"
  proof (rule Cons.IH)
    fix a w b assume "cs = a @ w @ b"
    then have "c # cs = (c # a) @ w @ b" by simp
    then show "w \<notin> lang r" by (rule Cons.prems)
  qed
  ultimately show ?case by (simp add: scan_no_match)
qed

lemma re_sub_unmatched:
  assumes "\<And>a w b. s = a @ w @ b \<Longrightarrow> w \<notin> lang r"
  shows "re_sub r f s = s"
proof -
  have "concat (map (\<lambda>x. case x of Inl c \<Rightarrow> [c] | Inr (m, cu) \<Rightarrow> f (group1 cu)) (map Inl s)) = s"
    by (induction s) auto
  then show ?thesis by (simp add: re_sub_def scan_unmatched [OF assms])
qed


text \<open>
  What the rules of the sanitizer look for: a word character directly before a
  colon; a character of one kind followed, after white space or none, by a
  character of another kind (a digit and an opening parenthesis, a comma and a
  closing brace or bracket).  A text is \<open>stable\<close> when it has no code fence, no
  \<^verbatim>\<open>//\<close>, none of these, and no white space at either end.
\<close>

fun word_colon :: "string \<Rightarrow> bool" where
  "word_colon (c # d # cs) = ((is_word c \<and> d = CHR '':'') \<or> word_colon (d # cs))"
| "word_colon _ = False"

fun spaced_pair :: "(char \<Rightarrow> bool) \<Rightarrow> (char \<Rightarrow> bool) \<Rightarrow> string \<Rightarrow> bool" where
  "spaced_pair P Q [] = False"
| "spaced_pair P Q (c # cs) =
     ((P c \<and> (case dropWhile is_space cs of [] \<Rightarrow> False | x # _ \<Rightarrow> Q x)) \<or> spaced_pair P Q cs)"

definition stable :: "string \<Rightarrow> bool" where
  "stable s =
     (\<not> str_in ''```'' s \<and> \<not> str_in ''//'' s
      \<and> \<not> spaced_pair is_digit (\<lambda>x. x = CHR ''('') s
      \<and> \<not> word_colon s
      \<and> \<not> spaced_pair (\<lambda>c. c = CHR '','') (\<lambda>x. x = CHR ''}'' \<or> x = CHR '']'') s
      \<and> strip s = s)"

lemma starts_with_append: "starts_with sub (sub @ b)"
  by (induction sub) auto

lemma starts_with_prefix: "starts_with (u @ v) t \<Longrightarrow> starts_with u t"
  by (induction u t rule: starts_with.induct) auto

lemma str_in_starts: "starts_with sub t \<Longrightarrow> str_in sub t"
  by (cases t; cases sub) auto

lemma str_in_append: "str_in sub t \<Longrightarrow> str_in sub (a @ t)"
  by (induction a) auto

lemma str_in_middle: "str_in sub (a @ sub @ b)"
  by (simp add: str_in_append str_in_starts starts_with_append)

lemma lang_Str: "lang (Str lit r) = {lit @ v | v. v \<in> lang r}"
  by (induction lit) auto

lemma word_colon_append: "word_colon t \<Longrightarrow> word_colon (a @ t)"
proof (induction a)
  case Nil
  then show ?case by simp
next
  case (Cons x a)
  then have "word_colon (a @ t)" by simp
  then show ?case by (cases "a @ t") auto
qed

lemma word_colon_found: "is_word c \<Longrightarrow> word_colon (a @ c # CHR '':'' # b)"
  by (rule word_colon_append) simp

lemma spaced_pair_append: "spaced_pair P Q t \<Longrightarrow> spaced_pair P Q (a @ t)"
  by (induction a) auto

lemma spaced_pair_found:
  assumes "P c" "Q x" "\<not> is_space x" "\<forall>y \<in> set sp. is_space y"
  shows "spaced_pair P Q (a @ c # sp @ x # b)"
proof -
  have "dropWhile is_space (sp @ x # b) = x # b"
    using assms(3,4) by (simp add: dropWhile_append3)
  then have "spaced_pair P Q (c # sp @ x # b)" using assms(1,2) by simp
  then show ?thesis by (rule spaced_pair_append)
qed


lemma plus_cls_last:
  assumes "w \<in> lang (Plus (Cls p))"
  shows "\<exists>u d. w = u @ [d] \<and> p d"
proof -
  from assms obtain x v where w: "w = x # v" "p x" "v \<in> star {[y] | y. p y}"
    by (auto simp: Plus_def)
  from star_cls [OF w(3)] w(2) have all: "\<forall>c \<in> set w. p c" by (simp add: w(1))
  have "w = butlast w @ [last w]" using w(1) by simp
  moreover have "p (last w)" using all w(1) by (metis last_in_set list.distinct(1))
  ultimately show ?thesis by blast
qed

lemma remove_fence_open_id: "\<not> str_in ''```'' s \<Longrightarrow> remove_fence_open s = s"
  unfolding remove_fence_open_def
proof (rule re_sub_unmatched)
  fix a w b assume n: "\<not> str_in ''```'' s" and s: "s = a @ w @ b"
  show "w \<notin> lang fence_open_re"
  proof
    assume "w \<in> lang fence_open_re"
    then obtain v where "w = ''```json'' @ v" by (auto simp: fence_open_re_def lang_Str)
    then have "s = a @ ''```'' @ (''json'' @ v @ b)" using s by simp
    then have "str_in ''```'' s" using str_in_middle by metis
    with n show False by simp
  qed
qed

lemma remove_fence_close_id: "\<not> str_in ''```'' s \<Longrightarrow> remove_fence_close s = s"
  unfolding remove_fence_close_def
proof (rule re_sub_unmatched)
  fix a w b assume n: "\<not> str_in ''```'' s" and s: "s = a @ w @ b"
  show "w \<notin> lang fence_close_re"
  proof
    assume "w \<in> lang fence_close_re"
    then obtain v where "w = ''```'' @ v" by (auto simp: fence_close_re_def lang_Str)
    then have "s = a @ ''```'' @ (v @ b)" using s by simp
    then have "str_in ''```'' s" using str_in_middle by metis
    with n show False by simp
  qed
qed

lemma remove_comments_id: "\<not> str_in ''//'' s \<Longrightarrow> remove_comments s = s"
  unfolding remove_comments_def
proof (rule re_sub_unmatched)
  fix a w b assume n: "\<not> str_in ''//'' s" and s: "s = a @ w @ b"
  show "w \<notin> lang comment_re"
  proof
    assume "w \<in> lang comment_re"
    then obtain v where "w = ''//'' @ v" by (auto simp: comment_re_def lang_Str)
    then have "s = a @ ''//'' @ (v @ b)" using s by simp
    then have "str_in ''//'' s" using str_in_middle by metis
    with n show False by simp
  qed
qed

lemma remove_paren_notes_id:
  "\<not> spaced_pair is_digit (\<lambda>x. x = CHR ''('') s \<Longrightarrow> remove_paren_notes s = s"
  unfolding remove_paren_notes_def
proof (rule re_sub_unmatched)
  fix a w b assume n: "\<not> spaced_pair is_digit (\<lambda>x. x = CHR ''('') s" and s: "s = a @ w @ b"
  show "w \<notin> lang paren_note_re"
  proof
    assume "w \<in> lang paren_note_re"
    then obtain ds sp rest where w: "w = ds @ sp @ CHR ''('' # rest"
      and ds: "ds \<in> lang (Plus (Cls is_digit))" and sp: "sp \<in> star {[y] | y. is_space y}"
      by (auto simp: paren_note_re_def)
    from plus_cls_last [OF ds] obtain u d where d: "ds = u @ [d]" "is_digit d" by blast
    have "s = (a @ u) @ d # sp @ CHR ''('' # (rest @ b)" using s w d by simp
    moreover have "\<not> is_space (CHR ''('')" by (simp add: is_space_def code_def)
    ultimately have "spaced_pair is_digit (\<lambda>x. x = CHR ''('') s"
      using spaced_pair_found [of is_digit d "\<lambda>x. x = CHR ''(''" "CHR ''(''" sp "a @ u" "rest @ b"]
        d(2) star_cls [OF sp] by simp
    with n show False by simp
  qed
qed

lemma quote_bare_keys_id: "\<not> word_colon s \<Longrightarrow> quote_bare_keys s = s"
  unfolding quote_bare_keys_def
proof (rule re_sub_unmatched)
  fix a w b assume n: "\<not> word_colon s" and s: "s = a @ w @ b"
  show "w \<notin> lang bare_key_re"
  proof
    assume "w \<in> lang bare_key_re"
    then obtain ws where w: "w = ws @ '':''" and ws: "ws \<in> lang (Plus (Cls is_word))"
      by (auto simp: bare_key_re_def)
    from plus_cls_last [OF ws] obtain u d where d: "ws = u @ [d]" "is_word d" by blast
    have "s = (a @ u) @ d # CHR '':'' # b" using s w d by simp
    then have "word_colon s" using word_colon_found [OF d(2)] by metis
    with n show False by simp
  qed
qed

lemma remove_comma_brace_id:
  "\<not> spaced_pair (\<lambda>c. c = CHR '','') (\<lambda>x. x = CHR ''}'' \<or> x = CHR '']'') s
   \<Longrightarrow> remove_comma_brace s = s"
  unfolding remove_comma_brace_def
proof (rule re_sub_unmatched)
  fix a w b
  assume n: "\<not> spaced_pair (\<lambda>c. c = CHR '','') (\<lambda>x. x = CHR ''}'' \<or> x = CHR '']'') s"
    and s: "s = a @ w @ b"
  show "w \<notin> lang comma_brace_re"
  proof
    assume "w \<in> lang comma_brace_re"
    then obtain sp where w: "w = CHR '','' # sp @ ''}''" and sp: "sp \<in> star {[y] | y. is_space y}"
      by (auto simp: comma_brace_re_def)
    have "s = a @ CHR '','' # sp @ CHR ''}'' # b" using s w by simp
    moreover have "\<not> is_space (CHR ''}'')" by (simp add: is_space_def code_def)
    ultimately have "spaced_pair (\<lambda>c. c = CHR '','') (\<lambda>x. x = CHR ''}'' \<or> x = CHR '']'') s"
      using spaced_pair_found [of "\<lambda>c. c = CHR '',''" "CHR '',''"
          "\<lambda>x. x = CHR ''}'' \<or> x = CHR '']''" "CHR ''}''" sp a b] star_cls [OF sp]
      by simp
    with n show False by simp
  qed
qed

lemma remove_comma_bracket_id:
  "\<not> spaced_pair (\<lambda>c. c = CHR '','') (\<lambda>x. x = CHR ''}'' \<or> x = CHR '']'') s
   \<Longrightarrow> remove_comma_bracket s = s"
  unfolding remove_comma_bracket_def
proof (rule re_sub_unmatched)
  fix a w b
  assume n: "\<not> spaced_pair (\<lambda>c. c = CHR '','') (\<lambda>x. x = CHR ''}'' \<or> x = CHR '']'') s"
    and s: "s = a @ w @ b"
  show "w \<notin> lang comma_bracket_re"
  proof
    assume "w \<in> lang comma_bracket_re"
    then obtain sp where w: "w = CHR '','' # sp @ '']''" and sp: "sp \<in> star {[y] | y. is_space y}"
      by (auto simp: comma_bracket_re_def)
    have "s = a @ CHR '','' # sp @ CHR '']'' # b" using s w by simp
    moreover have "\<not> is_space (CHR '']'')" by (simp add: is_space_def code_def)
    ultimately have "spaced_pair (\<lambda>c. c = CHR '','') (\<lambda>x. x = CHR ''}'' \<or> x = CHR '']'') s"
      using spaced_pair_found [of "\<lambda>c. c = CHR '',''" "CHR '',''"
          "\<lambda>x. x = CHR ''}'' \<or> x = CHR '']''" "CHR '']''" sp a b] star_cls [OF sp]
      by simp
    with n show False by simp
  qed
qed

lemma stable_clean: "stable s \<Longrightarrow> clean_json_string s = s"
  by (simp add: stable_def clean_json_string_def remove_fence_open_id remove_fence_close_id
        remove_comments_id remove_paren_notes_id quote_bare_keys_id remove_comma_brace_id
        remove_comma_bracket_id)


lemma strip_strip: "strip (strip s) = strip s"
proof -
  define t where "t = dropWhile is_space s"
  define u where "u = dropWhile is_space (rev t)"
  have t: "t = [] \<or> \<not> is_space (hd t)" unfolding t_def by (metis hd_dropWhile)
  have u: "u = [] \<or> \<not> is_space (hd u)" unfolding u_def by (metis hd_dropWhile)
  have ru: "rev u = [] \<or> \<not> is_space (hd (rev u))"
  proof (cases "u = []")
    case True
    then show ?thesis by simp
  next
    case False
    then have "t \<noteq> []" by (auto simp: u_def)
    then obtain c t' where c: "t = c # t'" by (cases t) auto
    with t have nc: "\<not> is_space c" by simp
    have "rev t = rev t' @ [c]" by (simp add: c)
    then have "u = dropWhile is_space (rev t') @ [c]"
      using nc by (simp add: u_def dropWhile_append3)
    then have "rev u = c # rev (dropWhile is_space (rev t'))" by simp
    with nc show ?thesis by simp
  qed
  have 1: "dropWhile is_space (rev u) = rev u" using ru by (simp add: dropWhile_eq_self_iff)
  have 2: "dropWhile is_space u = u" using u by (simp add: dropWhile_eq_self_iff)
  have "strip s = rev u" by (simp add: strip_def t_def u_def)
  moreover have "strip (rev u) = rev u" by (simp add: strip_def 1 2)
  ultimately show ?thesis by simp
qed

text \<open>
  Claim C4, as the code has it.  The sanitized text has no white space at either
  end, so the last rule changes nothing when applied again; and the sanitizer
  applied again changes nothing when the sanitized text is stable.  Each rule is one
  pass, and a pass can leave text that the same or an earlier rule would change.
\<close>

theorem C4_idempotent_when_stable:
  "strip (clean_json_string x) = clean_json_string x
   \<and> (stable (clean_json_string x)
        \<longrightarrow> clean_json_string (clean_json_string x) = clean_json_string x)"
  by (simp add: stable_clean) (simp add: clean_json_string_def strip_strip)

theorem C4_witness:
  "clean_json_string (clean_json_string ''```json {a: 3 (Neutral),} ```'')
     = clean_json_string ''```json {a: 3 (Neutral),} ```''"
proof -
  have "stable (clean_json_string ''```json {a: 3 (Neutral),} ```'')" by code_simp
  with C4_idempotent_when_stable [of "''```json {a: 3 (Neutral),} ```''"] show ?thesis by blast
qed

text \<open>
  The claim as stated fails: of two trailing commas one pass removes one.
\<close>

theorem C4_counterexample:
  \<open>clean_json_string (clean_json_string ''{"a": 1,,}'') \<noteq> clean_json_string ''{"a": 1,,}''\<close>
  by code_simp

section \<open>Well-formed JSON through the pipeline\<close>





end
